theory Spec2Isabelle
  imports Main "HOL-Library.Word"
begin

section \<open>Allocation context\<close>

text \<open>
  The converter of \<^verbatim>\<open>upb/util/def_to_proto.c\<close> runs inside a context holding an
  arena and a jump buffer. Every way a C function of the file can leave other than by
  returning is a value of \<open>fault\<close>:
  \<^item> \<open>OOM\<close>: \<^verbatim>\<open>CHK_OOM\<close> saw a null pointer and took the long jump to the entry point;
  \<^item> \<open>NullStore\<close>: a store through a slot array that is the null pointer
    (undefined behaviour in C);
  \<^item> \<open>NullDeref\<close>: an accessor applied to a null definition pointer;
  \<^item> \<open>BufferOverrun\<close>: a store past the end of an allocated buffer;
  \<^item> \<open>AssertFailed\<close>: \<^verbatim>\<open>UPB_ASSERT\<close> found its condition false;
  \<^item> \<open>Unreachable\<close>: control reached \<^verbatim>\<open>UPB_UNREACHABLE()\<close>.
\<close>

datatype fault = OOM | NullStore | NullDeref | BufferOverrun | AssertFailed | Unreachable

text \<open>
  Modelled from the spec: the arena itself (\<^verbatim>\<open>upb/mem/arena.h\<close>) is not part of the
  sources. The spec gives it as a capability, "allocate N bytes, failure signaled",
  handing out zero-initialized byte ranges. Its state is the list of answers it will give
  to the coming allocator calls (\<open>True\<close>: memory, \<open>False\<close>: the null pointer); when the
  list is used up every further call succeeds. This is the spec's "simulated allocator
  that fails on the 3rd allocation", for any pattern of failures.
\<close>

type_synonym upb_Arena = "bool list"

type_synonym 'a conv = "upb_Arena \<Rightarrow> fault + 'a \<times> upb_Arena"

definition ret :: "'a \<Rightarrow> 'a conv" where
  "ret x a = Inr (x, a)"

definition throw :: "fault \<Rightarrow> 'a conv" where
  "throw e a = Inl e"

definition bnd :: "'a conv \<Rightarrow> ('a \<Rightarrow> 'b conv) \<Rightarrow> 'b conv" where
  "bnd m f a = (case m a of Inl e \<Rightarrow> Inl e | Inr (x, a') \<Rightarrow> f x a')"

fun arena_call :: "bool conv" where
  "arena_call [] = Inr (True, [])"
| "arena_call (b # bs) = Inr (b, bs)"

definition upb_Arena_Malloc :: "nat \<Rightarrow> string option conv" where
  "upb_Arena_Malloc n =
     bnd arena_call (\<lambda>ok. ret (if ok then Some (replicate n (CHR 0x00)) else None))"

text \<open>\<^verbatim>\<open>#define CHK_OOM(val) if (!(val)) UPB_LONGJMP(ctx->err, 1);\<close>\<close>

definition CHK_OOM :: "'a option \<Rightarrow> 'a conv" where
  "CHK_OOM val = (case val of None \<Rightarrow> throw OOM | Some p \<Rightarrow> ret p)"

section \<open>Value encoders\<close>

text \<open>
  A \<^verbatim>\<open>upb_StringView\<close> is a pointer and a size. The model keeps the bytes the view
  covers and the storage the pointer points into: the arena of the running conversion, or
  the storage of the source definitions (the definition pool).
\<close>

datatype storage = ArenaStorage | DefStorage

record upb_StringView =
  sv_data :: string
  sv_storage :: storage

text \<open>
  \<^verbatim>\<open>memcpy(p + off, s, n)\<close> into the buffer \<open>p\<close>: a fault if the copy leaves the buffer.
\<close>

definition memcpy :: "string \<Rightarrow> nat \<Rightarrow> string \<Rightarrow> nat \<Rightarrow> string conv" where
  "memcpy p off s n =
     (if off + n \<le> length p then ret (take off p @ take n s @ drop (off + n) p)
      else throw BufferOverrun)"

text \<open>\<^verbatim>\<open>p[i] = c\<close> on a buffer of \<open>length p\<close> bytes.\<close>

definition store :: "string \<Rightarrow> nat \<Rightarrow> char \<Rightarrow> string conv" where
  "store p i c = (if i < length p then ret (p[i := c]) else throw BufferOverrun)"

definition strviewdup2 :: "upb_StringView \<Rightarrow> upb_StringView conv" where
  "strviewdup2 str =
     bnd (upb_Arena_Malloc (length (sv_data str))) (\<lambda>p0.
     bnd (CHK_OOM p0) (\<lambda>p.
     bnd (memcpy p 0 (sv_data str) (length (sv_data str))) (\<lambda>p.
     ret \<lparr>sv_data = take (length (sv_data str)) p, sv_storage = ArenaStorage\<rparr>)))"

text \<open>
  A \<^verbatim>\<open>const char*\<close> of the source model is a \<open>string\<close> (the bytes before the
  terminating NUL), so \<^verbatim>\<open>strlen\<close> is \<open>length\<close>.
\<close>

definition strviewdup :: "string \<Rightarrow> upb_StringView conv" where
  "strviewdup s = strviewdup2 \<lparr>sv_data = s, sv_storage = DefStorage\<rparr>"

definition qual_dup :: "string \<Rightarrow> upb_StringView conv" where
  "qual_dup s =
     (let n = length s in
      bnd (upb_Arena_Malloc (n + 1)) (\<lambda>p0.
      bnd (CHK_OOM p0) (\<lambda>p.
      bnd (store p 0 (CHR ''.'')) (\<lambda>p.
      bnd (memcpy p 1 s n) (\<lambda>p.
      ret \<lparr>sv_data = take (n + 1) p, sv_storage = ArenaStorage\<rparr>)))))"

text \<open>
  The value of a C \<^verbatim>\<open>char\<close> holding the byte \<open>c\<close>, where \<^verbatim>\<open>char\<close> is signed
  (as on the x86 targets of the plugin), and of an \<^verbatim>\<open>unsigned char\<close>.
\<close>

definition uchar :: "char \<Rightarrow> int" where
  "uchar c = of_char c"

definition schar :: "char \<Rightarrow> int" where
  "schar c = (if uchar c < 128 then uchar c else uchar c - 256)"

text \<open>\<^verbatim>\<open>static bool upb_isprint(char ch) { return ch >= 0x20 && ch <= 0x7f; }\<close>\<close>

definition upb_isprint :: "char \<Rightarrow> bool" where
  "upb_isprint ch = (schar ch \<ge> 0x20 \<and> schar ch \<le> 0x7f)"

definition special_escape :: "char \<Rightarrow> int" where
  "special_escape ch =
     (if ch = CHR 0x0A then of_char (CHR ''n'')
      else if ch = CHR 0x0D then of_char (CHR ''r'')
      else if ch = CHR 0x09 then of_char (CHR ''t'')
      else if ch = CHR 0x5C then of_char (CHR 0x5C)
      else if ch = CHR 0x27 then of_char (CHR 0x27)
      else if ch = CHR 0x22 then of_char (CHR 0x22)
      else -1)"

text \<open>The first loop of \<^verbatim>\<open>default_bytes\<close>: the size of the output.\<close>

fun escaped_size :: "string \<Rightarrow> nat \<Rightarrow> nat" where
  "escaped_size [] n = n"
| "escaped_size (ch # rest) n =
     (if special_escape ch \<ge> 0 then escaped_size rest (n + 2)
      else if upb_isprint ch then escaped_size rest (n + 1)
      else escaped_size rest (n + 4))"

text \<open>
  The second loop: \<open>src\<close> is what is left to read, \<open>p\<close> the buffer and \<open>dst\<close> the index
  of the next byte to write. \<open>ch\<close> is an \<^verbatim>\<open>unsigned char\<close> there, promoted to
  \<^verbatim>\<open>int\<close> for the shifts, so the octal digits are computed without wrap-around.
\<close>

fun escape_loop :: "string \<Rightarrow> string \<Rightarrow> nat \<Rightarrow> (string \<times> nat) conv" where
  "escape_loop [] p dst = ret (p, dst)"
| "escape_loop (ch # src) p dst =
     (if special_escape ch \<ge> 0 then
        bnd (store p dst (CHR 0x5C)) (\<lambda>p.
        bnd (store p (dst + 1) (char_of (special_escape ch))) (\<lambda>p.
        escape_loop src p (dst + 2)))
      else if upb_isprint ch then
        bnd (store p dst ch) (\<lambda>p.
        escape_loop src p (dst + 1))
      else
        bnd (store p dst (CHR 0x5C)) (\<lambda>p.
        bnd (store p (dst + 1) (char_of (of_char (CHR ''0'') + uchar ch div 64))) (\<lambda>p.
        bnd (store p (dst + 2) (char_of (of_char (CHR ''0'') + uchar ch div 8 mod 8))) (\<lambda>p.
        bnd (store p (dst + 3) (char_of (of_char (CHR ''0'') + uchar ch mod 8))) (\<lambda>p.
        escape_loop src p (dst + 4))))))"

definition default_bytes :: "upb_StringView \<Rightarrow> upb_StringView conv" where
  "default_bytes val =
     (let n = escaped_size (sv_data val) 0 in
      bnd (upb_Arena_Malloc n) (\<lambda>p0.
      bnd (CHK_OOM p0) (\<lambda>p.
      bnd (escape_loop (sv_data val) p 0) (\<lambda>(p, dst).
      ret \<lparr>sv_data = take n p, sv_storage = ArenaStorage\<rparr>))))"

section \<open>Numeric formatting\<close>

text \<open>
  Modelled from the spec: \<^verbatim>\<open>_upb_vsnprintf\<close> (\<^verbatim>\<open>upb/port/vsnprintf_compat.h\<close>, over the
  C library's \<^verbatim>\<open>vsnprintf\<close>) is not part of the sources. The spec asks for "signed/unsigned
  32/64-bit integers as plain decimal; single-precision floats with 9 significant digits;
  double-precision floats with 17 significant digits"; the format strings of
  \<^verbatim>\<open>default_string\<close> are \<^verbatim>\<open>%d\<close>, \<^verbatim>\<open>%u\<close> (at 32 and 64 bits), \<^verbatim>\<open>%.9g\<close> and
  \<^verbatim>\<open>%.17g\<close>, and the definitions below follow the C standard's description of these
  conversions (C11 7.21.6.1).
\<close>

definition digit_char :: "nat \<Rightarrow> char" where
  "digit_char d = char_of (of_char (CHR ''0'') + d)"

fun dec_nat :: "nat \<Rightarrow> string" where
  "dec_nat n = (if n < 10 then [digit_char n] else dec_nat (n div 10) @ [digit_char (n mod 10)])"

text \<open>\<^verbatim>\<open>%u\<close> and \<^verbatim>\<open>%d\<close>.\<close>

definition fmt_u :: "nat \<Rightarrow> string" where
  "fmt_u n = dec_nat n"

definition fmt_d :: "int \<Rightarrow> string" where
  "fmt_d i = (if i < 0 then CHR ''-'' # dec_nat (nat (- i)) else dec_nat (nat i))"

text \<open>
  The value of a C \<^verbatim>\<open>double\<close>: a finite value \<open>(-1)^s * num / den\<close>, an infinity or a
  NaN, each with its sign bit \<open>s\<close>. A \<^verbatim>\<open>float\<close> converts to \<^verbatim>\<open>double\<close> without
  changing its value, so the values of both types live here. \<open>decode_double\<close> and \<open>decode_float\<close> read the IEEE 754
  bit patterns of the two formats.
\<close>

datatype fpval = Finite bool nat nat | Infinity bool | NaN bool

definition decode_double :: "64 word \<Rightarrow> fpval" where
  "decode_double w =
     (let s = bit w 63; e = unat (take_bit 11 (drop_bit 52 w)); f = unat (take_bit 52 w) in
      if e = 2047 then (if f = 0 then Infinity s else NaN s)
      else if e = 0 then Finite s f (2 ^ 1074)
      else if e \<ge> 1075 then Finite s ((2 ^ 52 + f) * 2 ^ (e - 1075)) 1
      else Finite s (2 ^ 52 + f) (2 ^ (1075 - e)))"

definition decode_float :: "32 word \<Rightarrow> fpval" where
  "decode_float w =
     (let s = bit w 31; e = unat (take_bit 8 (drop_bit 23 w)); f = unat (take_bit 23 w) in
      if e = 255 then (if f = 0 then Infinity s else NaN s)
      else if e = 0 then Finite s f (2 ^ 149)
      else if e \<ge> 150 then Finite s ((2 ^ 23 + f) * 2 ^ (e - 150)) 1
      else Finite s (2 ^ 23 + f) (2 ^ (150 - e)))"

text \<open>The C comparison \<^verbatim>\<open>==\<close> on two such values: a NaN equals nothing, the two zeros are equal.\<close>

fun fp_eq :: "fpval \<Rightarrow> fpval \<Rightarrow> bool" where
  "fp_eq (Finite s n d) (Finite t m e) = (n * e = m * d \<and> (s = t \<or> n = 0))"
| "fp_eq (Infinity s) (Infinity t) = (s = t)"
| "fp_eq _ _ = False"

text \<open>The number of decimal digits of \<open>n\<close> (none for 0).\<close>

fun ndigits :: "nat \<Rightarrow> nat" where
  "ndigits n = (if n = 0 then 0 else Suc (ndigits (n div 10)))"

text \<open>
  The decimal exponent of \<open>num / den > 0\<close>: the \<open>X\<close> with \<open>10^X \<le> num / den < 10^(X+1)\<close>.
\<close>

definition dec_exponent :: "nat \<Rightarrow> nat \<Rightarrow> int" where
  "dec_exponent num den =
     (if den \<le> num then int (ndigits (num div den)) - 1
      else - int (ndigits ((den - 1) div num)))"

text \<open>\<open>N / M\<close> rounded to the nearest integer, ties to even.\<close>

definition round_div :: "nat \<Rightarrow> nat \<Rightarrow> nat" where
  "round_div N M =
     (let q = N div M; r = N mod M in
      if 2 * r < M then q else if 2 * r > M then q + 1 else if even q then q else q + 1)"

text \<open>
  \<open>num / den\<close> with \<open>P\<close> significant digits: the digits as a number \<open>D\<close> below \<open>10^P\<close> and
  the exponent \<open>X\<close> of the first digit, so that \<open>D * 10^(X - P + 1)\<close> is the rounded value.
\<close>

definition scale_round :: "nat \<Rightarrow> nat \<Rightarrow> int \<Rightarrow> nat \<Rightarrow> nat" where
  "scale_round num den X P =
     (let s = int P - 1 - X in
      if s \<ge> 0 then round_div (num * 10 ^ nat s) den
      else round_div num (den * 10 ^ nat (- s)))"

definition sig_digits :: "nat \<Rightarrow> nat \<Rightarrow> nat \<Rightarrow> nat \<times> int" where
  "sig_digits P num den =
     (if num = 0 then (0, 0)
      else let X = dec_exponent num den; D = scale_round num den X P in
        if D \<ge> 10 ^ P then (10 ^ (P - 1), X + 1) else (D, X))"

primrec digits_fixed :: "nat \<Rightarrow> nat \<Rightarrow> string" where
  "digits_fixed 0 n = []"
| "digits_fixed (Suc k) n = digits_fixed k (n div 10) @ [digit_char (n mod 10)]"

definition strip_zeros :: "string \<Rightarrow> string" where
  "strip_zeros s = rev (dropWhile (\<lambda>c. c = CHR ''0'') (rev s))"

definition with_fraction :: "string \<Rightarrow> string \<Rightarrow> string" where
  "with_fraction ip fr = (let fr' = strip_zeros fr in if fr' = [] then ip else ip @ CHR ''.'' # fr')"

definition exp_text :: "int \<Rightarrow> string" where
  "exp_text X =
     CHR ''e'' # (if X < 0 then CHR ''-'' else CHR ''+'') #
     (if \<bar>X\<bar> < 10 then CHR ''0'' # dec_nat (nat \<bar>X\<bar>) else dec_nat (nat \<bar>X\<bar>))"

text \<open>
  \<^verbatim>\<open>%.Pg\<close> of a finite value: with \<open>X\<close> the exponent of the \<^verbatim>\<open>e\<close> style conversion, style
  \<^verbatim>\<open>f\<close> with \<open>P - 1 - X\<close> decimals if \<open>-4 \<le> X < P\<close> and style \<^verbatim>\<open>e\<close> with \<open>P - 1\<close> decimals
  otherwise; trailing zeros of the fraction are removed, and the point with them if no
  fraction is left.
\<close>

definition fmt_g_abs :: "nat \<Rightarrow> nat \<Rightarrow> nat \<Rightarrow> string" where
  "fmt_g_abs P num den =
     (let (D, X) = sig_digits P num den; ds = digits_fixed P D in
      if - 4 \<le> X \<and> X < int P then
        (if X \<ge> 0 then with_fraction (take (nat X + 1) ds) (drop (nat X + 1) ds)
         else with_fraction ''0'' (replicate (nat (- X - 1)) (CHR ''0'') @ ds))
      else with_fraction (take 1 ds) (drop 1 ds) @ exp_text X)"

text \<open>
  An infinity is written \<^verbatim>\<open>inf\<close> and a NaN \<^verbatim>\<open>nan\<close>, after a minus sign when the sign
  bit is set (C11 7.21.6.1: "[-]inf", "[-]nan").
\<close>

fun fmt_g :: "nat \<Rightarrow> fpval \<Rightarrow> string" where
  "fmt_g P (Finite s num den) = (if s then CHR ''-'' # fmt_g_abs P num den else fmt_g_abs P num den)"
| "fmt_g P (Infinity s) = (if s then ''-inf'' else ''inf'')"
| "fmt_g P (NaN s) = (if s then ''-nan'' else ''nan'')"

text \<open>
  \<^verbatim>\<open>vsnprintf(p, cap, fmt, args)\<close>, where \<open>text\<close> is the whole conversion of the arguments:
  at most \<open>cap - 1\<close> bytes of it and a NUL are written, and the length of the whole
  conversion is returned.
\<close>

definition vsnprintf :: "string \<Rightarrow> nat \<Rightarrow> string \<Rightarrow> string \<times> nat" where
  "vsnprintf p cap text =
     (let w = take (cap - 1) text in
      (w @ CHR 0x00 # drop (Suc (length w)) p, length text))"

text \<open>\<open>cap\<close> is the \<^verbatim>\<open>max\<close> of the source.\<close>

definition printf_dup :: "string \<Rightarrow> upb_StringView conv" where
  "printf_dup text =
     (let cap = 32 in
      bnd (upb_Arena_Malloc cap) (\<lambda>p0.
      bnd (CHK_OOM p0) (\<lambda>p.
      let (p, n) = vsnprintf p cap text in
      if n < cap then ret \<lparr>sv_data = take n p, sv_storage = ArenaStorage\<rparr>
      else throw AssertFailed)))"

section \<open>The source model\<close>

text \<open>
  The reflection library (\<^verbatim>\<open>upb/reflection\<close>) is read through its accessors only. A
  definition is the record of what its accessors return; a repeated child category is the
  list of the children, its count being the length of the list.

  Modelled from the spec: an options message is an opaque payload that the converter
  copies by serializing it and parsing the bytes again; it is represented by its canonical
  binary encoding, and \<open>None\<close> stands for an entity whose \<^verbatim>\<open>HasOptions\<close> accessor is false.
\<close>

type_synonym options = string

type_synonym int32_t = "32 word"

text \<open>
  A cross-reference to a message or a file definition. The converter reads nothing but
  the name through such a pointer (\<^verbatim>\<open>upb_MessageDef_FullName\<close>, \<^verbatim>\<open>upb_FileDef_Name\<close>), so
  the pointer is given by that name; \<open>None\<close> is the null pointer.
\<close>

type_synonym upb_MessageDef_ptr = "string option"

type_synonym upb_FileDef_ptr = "string option"

record upb_EnumValueDef =
  ev_Name :: string
  ev_Number :: int32_t
  ev_Options :: "options option"

record upb_EnumReservedRange =
  err_Start :: int32_t
  err_End :: int32_t

record upb_EnumDef =
  ed_Name :: string
  ed_FullName :: string
  ed_Values :: "upb_EnumValueDef list"
  ed_ReservedRanges :: "upb_EnumReservedRange list"
  ed_ReservedNames :: "upb_StringView list"
  ed_Options :: "options option"

record upb_OneofDef =
  od_Name :: string
  od_Index :: int32_t
  od_Options :: "options option"

datatype upb_CType =
  kUpb_CType_Bool | kUpb_CType_Float | kUpb_CType_Int32 | kUpb_CType_UInt32
  | kUpb_CType_Enum | kUpb_CType_Message | kUpb_CType_Double | kUpb_CType_Int64
  | kUpb_CType_UInt64 | kUpb_CType_String | kUpb_CType_Bytes

text \<open>
  The union \<^verbatim>\<open>upb_MessageValue\<close>, as what each of its members reads. (The members of the
  C union share their bytes; the record lets them vary freely, which covers every union.)
\<close>

record upb_MessageValue =
  bool_val :: bool
  float_val :: "32 word"
  double_val :: "64 word"
  int32_val :: "32 word"
  int64_val :: "64 word"
  uint32_val :: "32 word"
  uint64_val :: "64 word"
  str_val :: upb_StringView

record upb_FieldDef =
  fd_Name :: string
  fd_Number :: int32_t
  fd_Label :: int32_t
  fd_Type :: int32_t
  fd_JsonName :: "string option"
  fd_IsSubMessage :: bool
  fd_MessageSubDef :: upb_MessageDef_ptr
  fd_CType :: upb_CType
  fd_EnumSubDef :: "upb_EnumDef option"
  fd_IsExtension :: bool
  fd_ContainingType :: upb_MessageDef_ptr
  fd_HasDefault :: bool
  fd_Default :: upb_MessageValue
  fd_ContainingOneof :: "upb_OneofDef option"
  fd_IsProto3Optional :: bool
  fd_Options :: "options option"

record upb_ExtensionRange =
  er_Start :: int32_t
  er_End :: int32_t
  er_Options :: "options option"

record upb_MessageReservedRange =
  mrr_Start :: int32_t
  mrr_End :: int32_t

datatype upb_MessageDef = MessageDef
  (msg_Name: string)
  (msg_FullName: string)
  (msg_Fields: "upb_FieldDef list")
  (msg_Oneofs: "upb_OneofDef list")
  (msg_NestedMessages: "upb_MessageDef list")
  (msg_NestedEnums: "upb_EnumDef list")
  (msg_NestedExtensions: "upb_FieldDef list")
  (msg_ExtensionRanges: "upb_ExtensionRange list")
  (msg_ReservedRanges: "upb_MessageReservedRange list")
  (msg_ReservedNames: "upb_StringView list")
  (msg_Options: "options option")

record upb_MethodDef =
  mth_Name :: string
  mth_InputType :: upb_MessageDef_ptr
  mth_OutputType :: upb_MessageDef_ptr
  mth_ClientStreaming :: bool
  mth_ServerStreaming :: bool
  mth_Options :: "options option"

record upb_ServiceDef =
  sd_Name :: string
  sd_Methods :: "upb_MethodDef list"
  sd_Options :: "options option"

datatype upb_Syntax = kUpb_Syntax_Proto2 | kUpb_Syntax_Proto3 | kUpb_Syntax_Editions

record upb_FileDef =
  fl_Name :: string
  fl_Package :: "string option"
  fl_Syntax :: upb_Syntax
  fl_Edition :: int32_t
  fl_Dependencies :: "upb_FileDef_ptr list"
  fl_PublicDependencyIndexes :: "int32_t list"
  fl_WeakDependencyIndexes :: "int32_t list"
  fl_TopLevelMessages :: "upb_MessageDef list"
  fl_TopLevelEnums :: "upb_EnumDef list"
  fl_Services :: "upb_ServiceDef list"
  fl_TopLevelExtensions :: "upb_FieldDef list"
  fl_Options :: "options option"

section \<open>The output model\<close>

text \<open>
  A descriptor message, as the value the setters have left in it when the converter
  returns it: an optional field that was never set is \<open>None\<close>, a repeated field is the
  list of its slots.
\<close>

record FieldDescriptorProto =
  fdp_name :: upb_StringView
  fdp_number :: int32_t
  fdp_label :: int32_t
  fdp_type :: int32_t
  fdp_json_name :: "upb_StringView option"
  fdp_type_name :: "upb_StringView option"
  fdp_extendee :: "upb_StringView option"
  fdp_default_value :: "upb_StringView option"
  fdp_oneof_index :: "int32_t option"
  fdp_proto3_optional :: "bool option"
  fdp_options :: "options option"

record OneofDescriptorProto =
  odp_name :: upb_StringView
  odp_options :: "options option"

record EnumValueDescriptorProto =
  evp_name :: upb_StringView
  evp_number :: int32_t
  evp_options :: "options option"

record EnumReservedRangeProto =
  errp_start :: int32_t
  errp_end :: int32_t

record EnumDescriptorProto =
  edp_name :: upb_StringView
  edp_value :: "EnumValueDescriptorProto list"
  edp_reserved_range :: "EnumReservedRangeProto list"
  edp_reserved_name :: "upb_StringView list"
  edp_options :: "options option"

record ExtensionRangeProto =
  erp_start :: int32_t
  erp_end :: int32_t
  erp_options :: "options option"

record ReservedRangeProto =
  rrp_start :: int32_t
  rrp_end :: int32_t

datatype DescriptorProto = DescriptorProto
  (dp_name: upb_StringView)
  (dp_field: "FieldDescriptorProto list")
  (dp_oneof_decl: "OneofDescriptorProto list")
  (dp_nested_type: "DescriptorProto list")
  (dp_enum_type: "EnumDescriptorProto list")
  (dp_extension: "FieldDescriptorProto list")
  (dp_extension_range: "ExtensionRangeProto list")
  (dp_reserved_range: "ReservedRangeProto list")
  (dp_reserved_name: "upb_StringView list")
  (dp_options: "options option")

record MethodDescriptorProto =
  mdp_name :: upb_StringView
  mdp_input_type :: upb_StringView
  mdp_output_type :: upb_StringView
  mdp_client_streaming :: "bool option"
  mdp_server_streaming :: "bool option"
  mdp_options :: "options option"

record ServiceDescriptorProto =
  sdp_name :: upb_StringView
  sdp_method :: "MethodDescriptorProto list"
  sdp_options :: "options option"

record FileDescriptorProto =
  fdsc_name :: upb_StringView
  fdsc_package :: "upb_StringView option"
  fdsc_edition :: "int32_t option"
  fdsc_syntax :: "upb_StringView option"
  fdsc_dependency :: "upb_StringView list"
  fdsc_public_dependency :: "int32_t list"
  fdsc_weak_dependency :: "int32_t list"
  fdsc_message_type :: "DescriptorProto list"
  fdsc_enum_type :: "EnumDescriptorProto list"
  fdsc_service :: "ServiceDescriptorProto list"
  fdsc_extension :: "FieldDescriptorProto list"
  fdsc_options :: "options option"

section \<open>Entity converters\<close>

text \<open>
  Modelled from the spec: the generated descriptor accessors (\<^verbatim>\<open>descriptor.upb.h\<close>) are
  not part of the sources. "For each descriptor kind, a constructor that allocates an empty
  node in a given arena, a set of field-setters, and a resize repeated child slot array to
  length N operation returning a mutable slot array to fill positionally"; the options
  encoder and decoder are "an opaque serialize/parse pair". Each constructor, resize,
  serialize and parse is one call of the allocator and returns the null pointer when that
  call fails; a setter allocates nothing.
\<close>

definition new_node :: "unit option conv" where
  "new_node = bnd arena_call (\<lambda>ok. ret (if ok then Some () else None))"

text \<open>\<open>resize n\<close> tells whether the slot array it returns is a pointer (\<open>True\<close>) or null.\<close>

definition resize :: "nat \<Rightarrow> bool conv" where
  "resize n = arena_call"

definition options_serialize :: "options \<Rightarrow> string option conv" where
  "options_serialize src = bnd arena_call (\<lambda>ok. ret (if ok then Some src else None))"

definition options_parse :: "string \<Rightarrow> options option conv" where
  "options_parse pb = bnd arena_call (\<lambda>ok. ret (if ok then Some pb else None))"

definition SET_OPTIONS :: "options \<Rightarrow> options conv" where
  "SET_OPTIONS src =
     bnd (options_serialize src) (\<lambda>pb0.
     bnd (CHK_OOM pb0) (\<lambda>pb.
     bnd (options_parse pb) (\<lambda>dst0.
     CHK_OOM dst0)))"

text \<open>\<^verbatim>\<open>if (upb_XDef_HasOptions(x)) { SET_OPTIONS(proto, ..., upb_XDef_Options(x)); }\<close>\<close>

definition copy_options :: "options option \<Rightarrow> options option conv" where
  "copy_options opts =
     (case opts of None \<Rightarrow> ret None | Some src \<Rightarrow> bnd (SET_OPTIONS src) (\<lambda>dst. ret (Some dst)))"

text \<open>An accessor applied to the definition a pointer points to.\<close>

definition deref :: "'a option \<Rightarrow> 'a conv" where
  "deref p = (case p of None \<Rightarrow> throw NullDeref | Some x \<Rightarrow> ret x)"

text \<open>\<open>set_if b m\<close>: a setter under \<^verbatim>\<open>if (b)\<close>, with \<open>m\<close> computing the value it sets.\<close>

definition set_if :: "bool \<Rightarrow> 'a conv \<Rightarrow> 'a option conv" where
  "set_if b m = (if b then bnd m (\<lambda>v. ret (Some v)) else ret None)"

text \<open>
  The loop \<^verbatim>\<open>for (i = 0; i < n; i++) slots[i] = conv(ctx, child(i));\<close> over the children
  \<open>xs\<close>, where \<open>slots\<close> is a pointer (\<open>True\<close>) or null: the right-hand side is evaluated
  first, and may leave by the long jump; the store through a null \<open>slots\<close> is a fault.
\<close>

fun fill_slots :: "bool \<Rightarrow> ('a \<Rightarrow> 'b conv) \<Rightarrow> 'a list \<Rightarrow> 'b list conv" where
  "fill_slots slots f [] = ret []"
| "fill_slots slots f (x # xs) =
     bnd (f x) (\<lambda>y.
     if \<not> slots then throw NullStore
     else bnd (fill_slots slots f xs) (\<lambda>ys. ret (y # ys)))"

text \<open>
  Modelled from the spec: \<^verbatim>\<open>upb_EnumDef_FindValueByNumber\<close> "looks up the enum value whose
  number equals the field's default numeric value"; null when there is none.
\<close>

definition upb_EnumDef_FindValueByNumber :: "upb_EnumDef \<Rightarrow> int32_t \<Rightarrow> upb_EnumValueDef option" where
  "upb_EnumDef_FindValueByNumber e n = find (\<lambda>v. ev_Number v = n) (ed_Values e)"

definition default_string :: "upb_FieldDef \<Rightarrow> upb_StringView conv" where
  "default_string f =
     (let d = fd_Default f; type = fd_CType f;
          special =
            (if type = kUpb_CType_Float \<or> type = kUpb_CType_Double then
               (let val = (if type = kUpb_CType_Float then decode_float (float_val d)
                           else decode_double (double_val d)) in
                if fp_eq val (Infinity False) then Some ''inf''
                else if fp_eq val (Infinity True) then Some ''-inf''
                else if \<not> fp_eq val val then Some ''nan''
                else None)
             else None)
      in case special of
        Some s \<Rightarrow> strviewdup s
      | None \<Rightarrow>
         (case fd_CType f of
            kUpb_CType_Bool \<Rightarrow> strviewdup (if bool_val d then ''true'' else ''false'')
          | kUpb_CType_Enum \<Rightarrow>
              bnd (deref (fd_EnumSubDef f)) (\<lambda>e.
              bnd (deref (upb_EnumDef_FindValueByNumber e (int32_val d))) (\<lambda>ev.
              strviewdup (ev_Name ev)))
          | kUpb_CType_Int64 \<Rightarrow> printf_dup (fmt_d (sint (int64_val d)))
          | kUpb_CType_UInt64 \<Rightarrow> printf_dup (fmt_u (unat (uint64_val d)))
          | kUpb_CType_Int32 \<Rightarrow> printf_dup (fmt_d (sint (int32_val d)))
          | kUpb_CType_UInt32 \<Rightarrow> printf_dup (fmt_u (unat (uint32_val d)))
          | kUpb_CType_Float \<Rightarrow> printf_dup (fmt_g 9 (decode_float (float_val d)))
          | kUpb_CType_Double \<Rightarrow> printf_dup (fmt_g 17 (decode_double (double_val d)))
          | kUpb_CType_String \<Rightarrow> strviewdup2 (str_val d)
          | kUpb_CType_Bytes \<Rightarrow> default_bytes (str_val d)
          | kUpb_CType_Message \<Rightarrow> throw Unreachable))"

definition resrange_toproto :: "upb_MessageReservedRange \<Rightarrow> ReservedRangeProto conv" where
  "resrange_toproto r =
     bnd new_node (\<lambda>proto.
     bnd (CHK_OOM proto) (\<lambda>_.
     ret \<lparr>rrp_start = mrr_Start r, rrp_end = mrr_End r\<rparr>))"

definition enumresrange_toproto :: "upb_EnumReservedRange \<Rightarrow> EnumReservedRangeProto conv" where
  "enumresrange_toproto r =
     bnd new_node (\<lambda>proto.
     bnd (CHK_OOM proto) (\<lambda>_.
     ret \<lparr>errp_start = err_Start r, errp_end = err_End r\<rparr>))"

definition fielddef_toproto :: "upb_FieldDef \<Rightarrow> FieldDescriptorProto conv" where
  "fielddef_toproto f =
     bnd new_node (\<lambda>proto.
     bnd (CHK_OOM proto) (\<lambda>_.
     bnd (strviewdup (fd_Name f)) (\<lambda>name.
     bnd (case fd_JsonName f of None \<Rightarrow> ret None
          | Some j \<Rightarrow> bnd (strviewdup j) (\<lambda>v. ret (Some v))) (\<lambda>json_name.
     bnd (if fd_IsSubMessage f then
            bnd (deref (fd_MessageSubDef f)) (\<lambda>full.
            bnd (qual_dup full) (\<lambda>v. ret (Some v)))
          else if fd_CType f = kUpb_CType_Enum then
            bnd (deref (fd_EnumSubDef f)) (\<lambda>e.
            bnd (qual_dup (ed_FullName e)) (\<lambda>v. ret (Some v)))
          else ret None) (\<lambda>type_name.
     bnd (set_if (fd_IsExtension f)
            (bnd (deref (fd_ContainingType f)) qual_dup)) (\<lambda>extendee.
     bnd (set_if (fd_HasDefault f) (default_string f)) (\<lambda>default_value.
     bnd (copy_options (fd_Options f)) (\<lambda>opts.
     ret \<lparr>fdp_name = name, fdp_number = fd_Number f, fdp_label = fd_Label f,
          fdp_type = fd_Type f, fdp_json_name = json_name, fdp_type_name = type_name,
          fdp_extendee = extendee, fdp_default_value = default_value,
          fdp_oneof_index = map_option od_Index (fd_ContainingOneof f),
          fdp_proto3_optional = (if fd_IsProto3Optional f then Some True else None),
          fdp_options = opts\<rparr>))))))))"

definition oneofdef_toproto :: "upb_OneofDef \<Rightarrow> OneofDescriptorProto conv" where
  "oneofdef_toproto o1 =
     bnd new_node (\<lambda>proto.
     bnd (CHK_OOM proto) (\<lambda>_.
     bnd (strviewdup (od_Name o1)) (\<lambda>name.
     bnd (copy_options (od_Options o1)) (\<lambda>opts.
     ret \<lparr>odp_name = name, odp_options = opts\<rparr>))))"

definition enumvaldef_toproto :: "upb_EnumValueDef \<Rightarrow> EnumValueDescriptorProto conv" where
  "enumvaldef_toproto e =
     bnd new_node (\<lambda>proto.
     bnd (CHK_OOM proto) (\<lambda>_.
     bnd (strviewdup (ev_Name e)) (\<lambda>name.
     bnd (copy_options (ev_Options e)) (\<lambda>opts.
     ret \<lparr>evp_name = name, evp_number = ev_Number e, evp_options = opts\<rparr>))))"

definition enumdef_toproto :: "upb_EnumDef \<Rightarrow> EnumDescriptorProto conv" where
  "enumdef_toproto e =
     bnd new_node (\<lambda>proto.
     bnd (CHK_OOM proto) (\<lambda>_.
     bnd (strviewdup (ed_Name e)) (\<lambda>name.
     bnd (resize (length (ed_Values e))) (\<lambda>vals.
     bnd (CHK_OOM (if vals then Some () else None)) (\<lambda>_.
     bnd (fill_slots vals enumvaldef_toproto (ed_Values e)) (\<lambda>vals.
     bnd (resize (length (ed_ReservedRanges e))) (\<lambda>res_ranges.
     bnd (fill_slots res_ranges enumresrange_toproto (ed_ReservedRanges e)) (\<lambda>res_ranges.
     bnd (resize (length (ed_ReservedNames e))) (\<lambda>res_names.
     bnd (fill_slots res_names ret (ed_ReservedNames e)) (\<lambda>res_names.
     bnd (copy_options (ed_Options e)) (\<lambda>opts.
     ret \<lparr>edp_name = name, edp_value = vals, edp_reserved_range = res_ranges,
          edp_reserved_name = res_names, edp_options = opts\<rparr>)))))))))))"

definition extrange_toproto :: "upb_ExtensionRange \<Rightarrow> ExtensionRangeProto conv" where
  "extrange_toproto e =
     bnd new_node (\<lambda>proto.
     bnd (CHK_OOM proto) (\<lambda>_.
     bnd (copy_options (er_Options e)) (\<lambda>opts.
     ret \<lparr>erp_start = er_Start e, erp_end = er_End e, erp_options = opts\<rparr>)))"

lemma fill_slots_cong [fundef_cong]:
  assumes "xs = ys" and fg: "\<And>x. x \<in> set ys \<Longrightarrow> f x = g x"
  shows "fill_slots s f xs = fill_slots s g ys"
proof -
  have "fill_slots s f ys = fill_slots s g ys"
    using fg
  proof (induction ys)
    case Nil
    show ?case by simp
  next
    case (Cons y ys)
    have "f y = g y" and "fill_slots s f ys = fill_slots s g ys"
      using Cons by simp_all
    then show ?case by (simp only: fill_slots.simps)
  qed
  with assms(1) show ?thesis by simp
qed

lemma size_nested_message: "x \<in> set (msg_NestedMessages m) \<Longrightarrow> size x < size m"
proof (cases m)
  case (MessageDef n fn fs os ms es xs ers rrs rns opts)
  assume "x \<in> set (msg_NestedMessages m)"
  then have "x \<in> set ms"
    by (simp add: MessageDef)
  then have "size x \<le> size_list size ms"
    by (rule size_list_estimation') simp
  then show ?thesis
    by (simp add: MessageDef)
qed

function msgdef_toproto :: "upb_MessageDef \<Rightarrow> DescriptorProto conv" where
  "msgdef_toproto m =
     bnd new_node (\<lambda>proto.
     bnd (CHK_OOM proto) (\<lambda>_.
     bnd (strviewdup (msg_Name m)) (\<lambda>name.
     bnd (resize (length (msg_Fields m))) (\<lambda>fields.
     bnd (CHK_OOM (if fields then Some () else None)) (\<lambda>_.
     bnd (fill_slots fields fielddef_toproto (msg_Fields m)) (\<lambda>fields.
     bnd (resize (length (msg_Oneofs m))) (\<lambda>oneofs.
     bnd (fill_slots oneofs oneofdef_toproto (msg_Oneofs m)) (\<lambda>oneofs.
     bnd (resize (length (msg_NestedMessages m))) (\<lambda>nested_msgs.
     bnd (fill_slots nested_msgs msgdef_toproto (msg_NestedMessages m)) (\<lambda>nested_msgs.
     bnd (resize (length (msg_NestedEnums m))) (\<lambda>nested_enums.
     bnd (fill_slots nested_enums enumdef_toproto (msg_NestedEnums m)) (\<lambda>nested_enums.
     bnd (resize (length (msg_NestedExtensions m))) (\<lambda>nested_exts.
     bnd (fill_slots nested_exts fielddef_toproto (msg_NestedExtensions m)) (\<lambda>nested_exts.
     bnd (resize (length (msg_ExtensionRanges m))) (\<lambda>ext_ranges.
     bnd (fill_slots ext_ranges extrange_toproto (msg_ExtensionRanges m)) (\<lambda>ext_ranges.
     bnd (resize (length (msg_ReservedRanges m))) (\<lambda>res_ranges.
     bnd (fill_slots res_ranges resrange_toproto (msg_ReservedRanges m)) (\<lambda>res_ranges.
     bnd (resize (length (msg_ReservedNames m))) (\<lambda>res_names.
     bnd (fill_slots res_names ret (msg_ReservedNames m)) (\<lambda>res_names.
     bnd (copy_options (msg_Options m)) (\<lambda>opts.
     ret (DescriptorProto name fields oneofs nested_msgs nested_enums nested_exts
            ext_ranges res_ranges res_names opts))))))))))))))))))))))"
  by pat_completeness auto

termination
  by (relation "measure size") (simp_all add: size_nested_message)

definition methoddef_toproto :: "upb_MethodDef \<Rightarrow> MethodDescriptorProto conv" where
  "methoddef_toproto m =
     bnd new_node (\<lambda>proto.
     bnd (CHK_OOM proto) (\<lambda>_.
     bnd (strviewdup (mth_Name m)) (\<lambda>name.
     bnd (bnd (deref (mth_InputType m)) qual_dup) (\<lambda>input_type.
     bnd (bnd (deref (mth_OutputType m)) qual_dup) (\<lambda>output_type.
     bnd (copy_options (mth_Options m)) (\<lambda>opts.
     ret \<lparr>mdp_name = name, mdp_input_type = input_type, mdp_output_type = output_type,
          mdp_client_streaming = (if mth_ClientStreaming m then Some True else None),
          mdp_server_streaming = (if mth_ServerStreaming m then Some True else None),
          mdp_options = opts\<rparr>))))))"

definition servicedef_toproto :: "upb_ServiceDef \<Rightarrow> ServiceDescriptorProto conv" where
  "servicedef_toproto s =
     bnd new_node (\<lambda>proto.
     bnd (CHK_OOM proto) (\<lambda>_.
     bnd (strviewdup (sd_Name s)) (\<lambda>name.
     bnd (resize (length (sd_Methods s))) (\<lambda>methods.
     bnd (fill_slots methods methoddef_toproto (sd_Methods s)) (\<lambda>methods.
     bnd (copy_options (sd_Options s)) (\<lambda>opts.
     ret \<lparr>sdp_name = name, sdp_method = methods, sdp_options = opts\<rparr>))))))"

text \<open>
  In \<^verbatim>\<open>filedef_toproto\<close> the two index lists are copied by
  \<^verbatim>\<open>if (n) memcpy(public_deps, public_dep_nums, n * sizeof(int32_t));\<close>, a store through
  the slot array exactly when \<open>n\<close> is not 0, as the loop \<open>fill_slots\<close> gives it.
\<close>

definition filedef_toproto :: "upb_FileDef \<Rightarrow> FileDescriptorProto conv" where
  "filedef_toproto f =
     bnd new_node (\<lambda>proto.
     bnd (CHK_OOM proto) (\<lambda>_.
     bnd (strviewdup (fl_Name f)) (\<lambda>name.
     bnd (case fl_Package f of None \<Rightarrow> ret None
          | Some package \<Rightarrow> set_if (length package \<noteq> 0) (strviewdup package)) (\<lambda>package.
     bnd (set_if (fl_Syntax f = kUpb_Syntax_Proto3) (strviewdup ''proto3'')) (\<lambda>syntax.
     bnd (resize (length (fl_Dependencies f))) (\<lambda>deps.
     bnd (fill_slots deps (\<lambda>dep. bnd (deref dep) strviewdup) (fl_Dependencies f)) (\<lambda>deps.
     bnd (resize (length (fl_PublicDependencyIndexes f))) (\<lambda>public_deps.
     bnd (fill_slots public_deps ret (fl_PublicDependencyIndexes f)) (\<lambda>public_deps.
     bnd (resize (length (fl_WeakDependencyIndexes f))) (\<lambda>weak_deps.
     bnd (fill_slots weak_deps ret (fl_WeakDependencyIndexes f)) (\<lambda>weak_deps.
     bnd (resize (length (fl_TopLevelMessages f))) (\<lambda>msgs.
     bnd (fill_slots msgs msgdef_toproto (fl_TopLevelMessages f)) (\<lambda>msgs.
     bnd (resize (length (fl_TopLevelEnums f))) (\<lambda>enums.
     bnd (fill_slots enums enumdef_toproto (fl_TopLevelEnums f)) (\<lambda>enums.
     bnd (resize (length (fl_Services f))) (\<lambda>services.
     bnd (fill_slots services servicedef_toproto (fl_Services f)) (\<lambda>services.
     bnd (resize (length (fl_TopLevelExtensions f))) (\<lambda>exts.
     bnd (fill_slots exts fielddef_toproto (fl_TopLevelExtensions f)) (\<lambda>exts.
     bnd (copy_options (fl_Options f)) (\<lambda>opts.
     ret \<lparr>fdsc_name = name, fdsc_package = package,
          fdsc_edition = (if fl_Syntax f = kUpb_Syntax_Editions then Some (fl_Edition f) else None),
          fdsc_syntax = syntax, fdsc_dependency = deps, fdsc_public_dependency = public_deps,
          fdsc_weak_dependency = weak_deps, fdsc_message_type = msgs, fdsc_enum_type = enums,
          fdsc_service = services, fdsc_extension = exts,
          fdsc_options = opts\<rparr>))))))))))))))))))))"

section \<open>Public entry points\<close>

text \<open>
  \<^verbatim>\<open>if (UPB_SETJMP(ctx->err)) return NULL; return xdef_toproto(ctx, x);\<close> on a fresh context
  over the arena \<open>a\<close>: the long jump of \<^verbatim>\<open>CHK_OOM\<close> arrives here and the entry point
  returns null (\<open>Inr None\<close>). Any other fault is not caught (\<open>Inl\<close>).
\<close>

definition entry_point :: "'a conv \<Rightarrow> upb_Arena \<Rightarrow> fault + 'a option" where
  "entry_point body a =
     (case body a of
        Inl OOM \<Rightarrow> Inr None
      | Inl e \<Rightarrow> Inl e
      | Inr (proto, _) \<Rightarrow> Inr (Some proto))"

definition upb_MessageDef_ToProto :: "upb_MessageDef \<Rightarrow> upb_Arena \<Rightarrow> fault + DescriptorProto option" where
  "upb_MessageDef_ToProto m a = entry_point (msgdef_toproto m) a"

definition upb_EnumDef_ToProto :: "upb_EnumDef \<Rightarrow> upb_Arena \<Rightarrow> fault + EnumDescriptorProto option" where
  "upb_EnumDef_ToProto e a = entry_point (enumdef_toproto e) a"

definition upb_EnumValueDef_ToProto ::
    "upb_EnumValueDef \<Rightarrow> upb_Arena \<Rightarrow> fault + EnumValueDescriptorProto option" where
  "upb_EnumValueDef_ToProto e a = entry_point (enumvaldef_toproto e) a"

definition upb_FieldDef_ToProto :: "upb_FieldDef \<Rightarrow> upb_Arena \<Rightarrow> fault + FieldDescriptorProto option" where
  "upb_FieldDef_ToProto f a = entry_point (fielddef_toproto f) a"

definition upb_OneofDef_ToProto :: "upb_OneofDef \<Rightarrow> upb_Arena \<Rightarrow> fault + OneofDescriptorProto option" where
  "upb_OneofDef_ToProto o1 a = entry_point (oneofdef_toproto o1) a"

definition upb_FileDef_ToProto :: "upb_FileDef \<Rightarrow> upb_Arena \<Rightarrow> fault + FileDescriptorProto option" where
  "upb_FileDef_ToProto f a = entry_point (filedef_toproto f) a"

definition upb_MethodDef_ToProto :: "upb_MethodDef \<Rightarrow> upb_Arena \<Rightarrow> fault + MethodDescriptorProto option" where
  "upb_MethodDef_ToProto m a = entry_point (methoddef_toproto m) a"

definition upb_ServiceDef_ToProto ::
    "upb_ServiceDef \<Rightarrow> upb_Arena \<Rightarrow> fault + ServiceDescriptorProto option" where
  "upb_ServiceDef_ToProto s a = entry_point (servicedef_toproto s) a"

section \<open>The escaped form and its reading\<close>

text \<open>
  What the second loop of \<^verbatim>\<open>default_bytes\<close> writes for one input byte, and for a byte
  string: the three branches of the loop body, one after the other.
\<close>

definition esc_byte :: "char \<Rightarrow> string" where
  "esc_byte ch =
     (if special_escape ch \<ge> 0 then [CHR 0x5C, char_of (special_escape ch)]
      else if upb_isprint ch then [ch]
      else [CHR 0x5C, char_of (of_char (CHR ''0'') + uchar ch div 64),
            char_of (of_char (CHR ''0'') + uchar ch div 8 mod 8),
            char_of (of_char (CHR ''0'') + uchar ch mod 8)])"

definition escape :: "string \<Rightarrow> string" where
  "escape s = concat (map esc_byte s)"

text \<open>The buffer \<open>p\<close> after the bytes \<open>bs\<close> were written at the index \<open>dst\<close>.\<close>

definition write_at :: "string \<Rightarrow> nat \<Rightarrow> string \<Rightarrow> string" where
  "write_at p dst bs = take dst p @ bs @ drop (dst + length bs) p"

text \<open>
  The reading of an escaped text, after the spec's "unescaping it reproduces the original
  byte sequence": the C escapes, a backslash before one of \<^verbatim>\<open>n r t \ ' "\<close> or before one
  to three octal digits; every other byte stands for itself. \<open>None\<close>: the text is not an
  escaped text.
\<close>

definition octal_digit :: "char \<Rightarrow> bool" where
  "octal_digit c = (of_char (CHR ''0'') \<le> (of_char c :: int) \<and> (of_char c :: int) \<le> of_char (CHR ''7''))"

definition octal_value :: "char \<Rightarrow> int" where
  "octal_value c = of_char c - of_char (CHR ''0'')"

definition unescape_letter :: "char \<Rightarrow> char option" where
  "unescape_letter d =
     (if d = CHR ''n'' then Some (CHR 0x0A)
      else if d = CHR ''r'' then Some (CHR 0x0D)
      else if d = CHR ''t'' then Some (CHR 0x09)
      else if d = CHR 0x5C then Some (CHR 0x5C)
      else if d = CHR 0x27 then Some (CHR 0x27)
      else if d = CHR 0x22 then Some (CHR 0x22)
      else None)"

fun unescape :: "string \<Rightarrow> string option" where
  "unescape [] = Some []"
| "unescape (c # cs) =
     (if c \<noteq> CHR 0x5C then map_option ((#) c) (unescape cs)
      else (case cs of
              [] \<Rightarrow> None
            | d # ds \<Rightarrow>
               (case unescape_letter d of
                  Some x \<Rightarrow> map_option ((#) x) (unescape ds)
                | None \<Rightarrow>
                   if \<not> octal_digit d then None
                   else (case ds of
                           [] \<Rightarrow> Some [char_of (octal_value d)]
                         | [e] \<Rightarrow>
                             if octal_digit e then Some [char_of (8 * octal_value d + octal_value e)]
                             else map_option ((#) (char_of (octal_value d))) (unescape [e])
                         | e # f # rest \<Rightarrow>
                             if octal_digit e \<and> octal_digit f then
                               map_option ((#) (char_of (64 * octal_value d + 8 * octal_value e + octal_value f)))
                                 (unescape rest)
                             else if octal_digit e then
                               map_option ((#) (char_of (8 * octal_value d + octal_value e)))
                                 (unescape (f # rest))
                             else map_option ((#) (char_of (octal_value d))) (unescape (e # f # rest))))))"

text \<open>
  The form of an escaped text: bytes from \<open>0x20\<close> to \<open>hi\<close> other than the backslash
  standing for themselves, a backslash and one of the six letters, or a backslash and three
  octal digits.
\<close>

fun escaped_form :: "int \<Rightarrow> string \<Rightarrow> bool" where
  "escaped_form hi [] = True"
| "escaped_form hi (c # cs) =
     (if c \<noteq> CHR 0x5C then 0x20 \<le> uchar c \<and> uchar c \<le> hi \<and> escaped_form hi cs
      else (case cs of
              [] \<Rightarrow> False
            | d # ds \<Rightarrow>
               (case unescape_letter d of
                  Some x \<Rightarrow> escaped_form hi ds
                | None \<Rightarrow>
                   (case ds of
                      e # f # rest \<Rightarrow> octal_digit d \<and> octal_digit e \<and> octal_digit f \<and> escaped_form hi rest
                    | _ \<Rightarrow> False))))"

section \<open>The conversion of an entity\<close>

text \<open>
  The conversion of a source entity \<open>x\<close> by the converter \<open>f\<close>: what \<open>f\<close> returns for \<open>x\<close>
  on the arena that never fails. (A converter that returns at all returns this value,
  whatever the arena: lemma \<open>conversion_of\<close>.)
\<close>

definition conversion :: "('a \<Rightarrow> 'b conv) \<Rightarrow> 'a \<Rightarrow> 'b option" where
  "conversion f x = (case f x [] of Inl e \<Rightarrow> None | Inr (y, a) \<Rightarrow> Some y)"

definition stable :: "'a conv \<Rightarrow> bool" where
  "stable m = (\<forall>a y a'. m a = Inr (y, a') \<longrightarrow> m [] = Inr (y, []))"

text \<open>
  The slot array \<open>ys\<close> of a repeated child category \<open>xs\<close>: as long as \<open>xs\<close>, and slot \<open>i\<close>
  holds the conversion of child \<open>i\<close>.
\<close>

definition slots_hold :: "('a \<Rightarrow> 'b conv) \<Rightarrow> 'a list \<Rightarrow> 'b list \<Rightarrow> bool" where
  "slots_hold f xs ys = (length ys = length xs \<and> map Some ys = map (conversion f) xs)"

definition arena_view :: "string \<Rightarrow> upb_StringView" where
  "arena_view s = \<lparr>sv_data = s, sv_storage = ArenaStorage\<rparr>"

definition source_view :: "string \<Rightarrow> upb_StringView" where
  "source_view s = \<lparr>sv_data = s, sv_storage = DefStorage\<rparr>"

text \<open>
  A text that \<^verbatim>\<open>printf_dup\<close> returns in full: it is shorter than the 32 bytes of the
  buffer, so the assertion \<^verbatim>\<open>n < max\<close> holds, and the function returns it whenever its
  allocation succeeds.
\<close>

definition printed_in_full :: "string \<Rightarrow> bool" where
  "printed_in_full text =
     (length text < 32
      \<and> printf_dup text [] = Inr (arena_view text, [])
      \<and> printf_dup text [True] = Inr (arena_view text, [])
      \<and> printf_dup text [False] = Inl OOM)"

subsection \<open>Example definitions\<close>

text \<open>
  The spec's scenario, "a file with package a.b, one message M with one field x of kind
  int32, number 1, default 5", with a second field of message type, a reserved name, an
  enum and a service beside it.
\<close>

definition zero_value :: upb_MessageValue where
  "zero_value = \<lparr>bool_val = False, float_val = 0, double_val = 0, int32_val = 0, int64_val = 0,
     uint32_val = 0, uint64_val = 0, str_val = source_view []\<rparr>"

definition ex_field_x :: upb_FieldDef where
  "ex_field_x = \<lparr>fd_Name = ''x'', fd_Number = 1, fd_Label = 1, fd_Type = 5, fd_JsonName = None,
     fd_IsSubMessage = False, fd_MessageSubDef = None, fd_CType = kUpb_CType_Int32,
     fd_EnumSubDef = None, fd_IsExtension = False, fd_ContainingType = None,
     fd_HasDefault = True, fd_Default = zero_value\<lparr>int32_val := 5\<rparr>,
     fd_ContainingOneof = None, fd_IsProto3Optional = False, fd_Options = None\<rparr>"

definition ex_field_y :: upb_FieldDef where
  "ex_field_y = \<lparr>fd_Name = ''y'', fd_Number = 2, fd_Label = 1, fd_Type = 11, fd_JsonName = None,
     fd_IsSubMessage = True, fd_MessageSubDef = Some ''a.b.M'', fd_CType = kUpb_CType_Message,
     fd_EnumSubDef = None, fd_IsExtension = False, fd_ContainingType = None,
     fd_HasDefault = False, fd_Default = zero_value,
     fd_ContainingOneof = None, fd_IsProto3Optional = False, fd_Options = None\<rparr>"

definition ex_enum :: upb_EnumDef where
  "ex_enum = \<lparr>ed_Name = ''E'', ed_FullName = ''a.b.E'',
     ed_Values = [\<lparr>ev_Name = ''ZERO'', ev_Number = 0, ev_Options = None\<rparr>,
                  \<lparr>ev_Name = ''ONE'', ev_Number = 1, ev_Options = None\<rparr>],
     ed_ReservedRanges = [\<lparr>err_Start = 5, err_End = 7\<rparr>],
     ed_ReservedNames = [source_view ''TWO''], ed_Options = None\<rparr>"

definition ex_field_e :: upb_FieldDef where
  "ex_field_e = \<lparr>fd_Name = ''e'', fd_Number = 3, fd_Label = 1, fd_Type = 14, fd_JsonName = None,
     fd_IsSubMessage = False, fd_MessageSubDef = None, fd_CType = kUpb_CType_Enum,
     fd_EnumSubDef = Some ex_enum, fd_IsExtension = False, fd_ContainingType = None,
     fd_HasDefault = True, fd_Default = zero_value\<lparr>int32_val := 1\<rparr>,
     fd_ContainingOneof = None, fd_IsProto3Optional = False, fd_Options = None\<rparr>"



definition ex_oneof :: upb_OneofDef where
  "ex_oneof = \<lparr>od_Name = ''choice'', od_Index = 0, od_Options = None\<rparr>"

definition ex_msg :: upb_MessageDef where
  "ex_msg = MessageDef ''M'' ''a.b.M'' [ex_field_x, ex_field_y] [] [] [] [] [] []
     [source_view ''old''] None"

definition ex_msg_empty :: upb_MessageDef where
  "ex_msg_empty = MessageDef ''N'' ''a.b.N'' [] [] [] [] [] [] [] [] None"

definition ex_msg_oneof :: upb_MessageDef where
  "ex_msg_oneof = MessageDef ''N'' ''a.b.N'' [] [ex_oneof] [] [] [] [] [] [] None"

definition ex_method :: "string \<Rightarrow> upb_MethodDef" where
  "ex_method n = \<lparr>mth_Name = n, mth_InputType = Some ''a.b.M'', mth_OutputType = Some ''a.b.N'',
     mth_ClientStreaming = False, mth_ServerStreaming = False, mth_Options = None\<rparr>"

definition ex_service :: upb_ServiceDef where
  "ex_service = \<lparr>sd_Name = ''S'', sd_Methods = [ex_method ''Put'', ex_method ''Get''],
     sd_Options = None\<rparr>"

definition ex_file :: upb_FileDef where
  "ex_file = \<lparr>fl_Name = ''m.proto'', fl_Package = Some ''a.b'', fl_Syntax = kUpb_Syntax_Proto2,
     fl_Edition = 0, fl_Dependencies = [Some ''dep1.proto'', Some ''dep0.proto''],
     fl_PublicDependencyIndexes = [1], fl_WeakDependencyIndexes = [],
     fl_TopLevelMessages = [ex_msg, ex_msg_empty], fl_TopLevelEnums = [ex_enum],
     fl_Services = [ex_service], fl_TopLevelExtensions = [], fl_Options = None\<rparr>"

text \<open>The descriptors the converters build from them.\<close>

definition ex_field_x_proto :: FieldDescriptorProto where
  "ex_field_x_proto = \<lparr>fdp_name = arena_view ''x'', fdp_number = 1, fdp_label = 1,
     fdp_type = 5, fdp_json_name = None, fdp_type_name = None, fdp_extendee = None,
     fdp_default_value = Some (arena_view ''5''), fdp_oneof_index = None,
     fdp_proto3_optional = None, fdp_options = None\<rparr>"

definition ex_field_y_proto :: FieldDescriptorProto where
  "ex_field_y_proto = \<lparr>fdp_name = arena_view ''y'', fdp_number = 2, fdp_label = 1,
     fdp_type = 11, fdp_json_name = None, fdp_type_name = Some (arena_view ''.a.b.M''),
     fdp_extendee = None, fdp_default_value = None, fdp_oneof_index = None,
     fdp_proto3_optional = None, fdp_options = None\<rparr>"

definition ex_field_e_proto :: FieldDescriptorProto where
  "ex_field_e_proto = \<lparr>fdp_name = arena_view ''e'', fdp_number = 3, fdp_label = 1,
     fdp_type = 14, fdp_json_name = None, fdp_type_name = Some (arena_view ''.a.b.E''),
     fdp_extendee = None, fdp_default_value = Some (arena_view ''ONE''), fdp_oneof_index = None,
     fdp_proto3_optional = None, fdp_options = None\<rparr>"

definition ex_enum_proto :: EnumDescriptorProto where
  "ex_enum_proto = \<lparr>edp_name = arena_view ''E'',
     edp_value = [\<lparr>evp_name = arena_view ''ZERO'', evp_number = 0, evp_options = None\<rparr>,
                  \<lparr>evp_name = arena_view ''ONE'', evp_number = 1, evp_options = None\<rparr>],
     edp_reserved_range = [\<lparr>errp_start = 5, errp_end = 7\<rparr>],
     edp_reserved_name = [source_view ''TWO''], edp_options = None\<rparr>"

definition ex_msg_proto :: DescriptorProto where
  "ex_msg_proto = DescriptorProto (arena_view ''M'') [ex_field_x_proto, ex_field_y_proto]
     [] [] [] [] [] [] [source_view ''old''] None"

definition ex_msg_empty_proto :: DescriptorProto where
  "ex_msg_empty_proto = DescriptorProto (arena_view ''N'') [] [] [] [] [] [] [] [] None"

definition ex_method_proto :: "string \<Rightarrow> MethodDescriptorProto" where
  "ex_method_proto n = \<lparr>mdp_name = arena_view n, mdp_input_type = arena_view ''.a.b.M'',
     mdp_output_type = arena_view ''.a.b.N'', mdp_client_streaming = None,
     mdp_server_streaming = None, mdp_options = None\<rparr>"

definition ex_service_proto :: ServiceDescriptorProto where
  "ex_service_proto = \<lparr>sdp_name = arena_view ''S'',
     sdp_method = [ex_method_proto ''Put'', ex_method_proto ''Get''], sdp_options = None\<rparr>"

definition ex_file_proto :: FileDescriptorProto where
  "ex_file_proto = \<lparr>fdsc_name = arena_view ''m.proto'', fdsc_package = Some (arena_view ''a.b''),
     fdsc_edition = None, fdsc_syntax = None,
     fdsc_dependency = [arena_view ''dep1.proto'', arena_view ''dep0.proto''],
     fdsc_public_dependency = [1], fdsc_weak_dependency = [],
     fdsc_message_type = [ex_msg_proto, ex_msg_empty_proto], fdsc_enum_type = [ex_enum_proto],
     fdsc_service = [ex_service_proto], fdsc_extension = [], fdsc_options = None\<rparr>"

section \<open>Lemmas on the allocation context\<close>

declare msgdef_toproto.simps [simp del]

lemma bnd_ret [simp]: "bnd (ret x) f = f x"
  by (rule ext) (simp add: bnd_def ret_def)

lemma bnd_throw [simp]: "bnd (throw e) f = throw e"
  by (rule ext) (simp add: bnd_def throw_def)

lemma bnd_Inr: "m a = Inr (x, a') \<Longrightarrow> bnd m f a = f x a'"
  by (simp add: bnd_def)

lemma bnd_Inl: "m a = Inl e \<Longrightarrow> bnd m f a = Inl e"
  by (simp add: bnd_def)

lemma malloc_True: "upb_Arena_Malloc n (True # a) = Inr (Some (replicate n (CHR 0x00)), a)"
  by (simp add: upb_Arena_Malloc_def bnd_def ret_def)

lemma malloc_Nil: "upb_Arena_Malloc n [] = Inr (Some (replicate n (CHR 0x00)), [])"
  by (simp add: upb_Arena_Malloc_def bnd_def ret_def)

lemma malloc_False: "upb_Arena_Malloc n (False # a) = Inr (None, a)"
  by (simp add: upb_Arena_Malloc_def bnd_def ret_def)

section \<open>Lemmas on the escape loops\<close>

lemma escaped_size_eq: "escaped_size s n = n + length (escape s)"
  by (induction s arbitrary: n) (simp_all add: escape_def esc_byte_def)

lemma store_ok: "i < length p \<Longrightarrow> store p i c = ret (p[i := c])"
  by (simp add: store_def)

lemma length_write_at: "dst + length bs \<le> length p \<Longrightarrow> length (write_at p dst bs) = length p"
  by (simp add: write_at_def)

lemma write_at_Nil: "write_at p dst [] = p"
  by (simp add: write_at_def)

lemma write_at_append:
  "dst + length xs + length ys \<le> length p \<Longrightarrow>
   write_at (write_at p dst xs) (dst + length xs) ys = write_at p dst (xs @ ys)"
  by (simp add: write_at_def ac_simps)

lemma write_at_one: "dst < length p \<Longrightarrow> p[dst := c] = write_at p dst [c]"
  by (simp add: write_at_def upd_conv_take_nth_drop)

lemma store_write_at:
  "dst + length xs < length p \<Longrightarrow>
   store (write_at p dst xs) (dst + length xs) c = ret (write_at p dst (xs @ [c]))"
proof -
  assume b: "dst + length xs < length p"
  have "(write_at p dst xs)[dst + length xs := c] = write_at (write_at p dst xs) (dst + length xs) [c]"
    using b by (intro write_at_one) (simp add: length_write_at)
  also have "\<dots> = write_at p dst (xs @ [c])"
    using b by (intro write_at_append) simp
  finally show ?thesis
    using b by (simp add: store_def length_write_at)
qed

lemma store_write_at0:
  "dst < length p \<Longrightarrow> store p dst c = ret (write_at p dst [c])"
  using store_write_at [of dst "[]" p c] by (simp add: write_at_Nil)

lemma length_esc_byte: "length (esc_byte ch) \<le> 4"
  by (simp add: esc_byte_def)

lemma escape_loop_step:
  assumes "dst + length (esc_byte ch) \<le> length p"
  shows "escape_loop (ch # src) p dst = escape_loop src (write_at p dst (esc_byte ch)) (dst + length (esc_byte ch))"
proof -
  consider (special) "special_escape ch \<ge> 0"
    | (print) "\<not> special_escape ch \<ge> 0" "upb_isprint ch"
    | (octal) "\<not> special_escape ch \<ge> 0" "\<not> upb_isprint ch"
    by blast
  then show ?thesis
  proof cases
    case special
    then have l: "esc_byte ch = [CHR 0x5C, char_of (special_escape ch)]"
      by (simp add: esc_byte_def)
    have b: "dst + 2 \<le> length p"
      using assms by (simp add: l)
    show ?thesis
      using special b store_write_at [of dst "[CHR 0x5C]" p]
      by (simp add: l store_write_at0)
  next
    case print
    then have l: "esc_byte ch = [ch]"
      by (simp add: esc_byte_def)
    have b: "dst + 1 \<le> length p"
      using assms by (simp add: l)
    show ?thesis
      using print b by (simp add: l store_write_at0)
  next
    case octal
    then have l: "esc_byte ch = [CHR 0x5C, char_of (of_char (CHR ''0'') + uchar ch div 64),
            char_of (of_char (CHR ''0'') + uchar ch div 8 mod 8),
            char_of (of_char (CHR ''0'') + uchar ch mod 8)]"
      by (simp add: esc_byte_def)
    have b: "dst + 4 \<le> length p"
      using assms by (simp add: l)
    show ?thesis
      using octal b store_write_at [of dst "[CHR 0x5C]" p]
        store_write_at [of dst "[CHR 0x5C, char_of (of_char (CHR ''0'') + uchar ch div 64)]" p]
        store_write_at [of dst "[CHR 0x5C, char_of (of_char (CHR ''0'') + uchar ch div 64), char_of (of_char (CHR ''0'') + uchar ch div 8 mod 8)]" p]
      by (simp add: l store_write_at0 numeral_eq_Suc)
  qed
qed

lemma escape_loop_writes:
  "dst + length (escape src) \<le> length p \<Longrightarrow>
   escape_loop src p dst a = Inr ((write_at p dst (escape src), dst + length (escape src)), a)"
proof (induction src arbitrary: p dst)
  case Nil
  then show ?case by (simp add: escape_def ret_def write_at_Nil)
next
  case (Cons ch src)
  have e: "escape (ch # src) = esc_byte ch @ escape src"
    by (simp add: escape_def)
  have b: "dst + length (esc_byte ch) + length (escape src) \<le> length p"
    using Cons.prems by (simp add: e)
  have "escape_loop (ch # src) p dst a
      = escape_loop src (write_at p dst (esc_byte ch)) (dst + length (esc_byte ch)) a"
    using b by (subst escape_loop_step) simp_all
  also have "\<dots> = Inr ((write_at (write_at p dst (esc_byte ch)) (dst + length (esc_byte ch)) (escape src),
       dst + length (esc_byte ch) + length (escape src)), a)"
    using b by (intro Cons.IH) (simp add: length_write_at)
  finally show ?case
    using b by (simp add: e write_at_append add.assoc)
qed




lemma uchar_bounds: "0 \<le> uchar c \<and> uchar c < 256"
proof -
  have "uchar c = int (of_char c)"
    by (simp add: uchar_def of_nat_of_char)
  moreover have "(of_char c :: nat) < 256"
    by simp
  ultimately show ?thesis by simp
qed

lemma char_of_uchar: "char_of (uchar c) = c"
  by (simp add: uchar_def)

lemma upb_isprint_uchar: "upb_isprint c \<longleftrightarrow> 0x20 \<le> uchar c \<and> uchar c \<le> 0x7f"
  using uchar_bounds [of c] by (auto simp add: upb_isprint_def schar_def)

lemma special_escape_cases:
  "special_escape ch \<ge> 0 \<longleftrightarrow> ch \<in> {CHR 0x0A, CHR 0x0D, CHR 0x09, CHR 0x5C, CHR 0x27, CHR 0x22}"
  by (simp add: special_escape_def)

lemma octal_char:
  assumes "0 \<le> k" "k < 8"
  shows "unescape_letter (char_of (of_char (CHR ''0'') + k :: int)) = None
       \<and> octal_digit (char_of (of_char (CHR ''0'') + k :: int))
       \<and> octal_value (char_of (of_char (CHR ''0'') + k :: int)) = k
       \<and> char_of (of_char (CHR ''0'') + k :: int) \<noteq> CHR 0x5C"
proof -
  have "k \<in> {0, 1, 2, 3, 4, 5, 6, 7}"
    using assms by auto
  then show ?thesis
    by (elim insertE emptyE)
      (simp_all add: unescape_letter_def octal_digit_def octal_value_def char_of_eq_iff take_bit_eq_mod)
qed

lemma octal_recombine: "64 * (u div 64) + 8 * (u div 8 mod 8) + u mod 8 = (u :: int)"
proof -
  have "u div 64 = u div 8 div 8"
    using zdiv_zmult2_eq [of 8 u 8] by simp
  then show ?thesis
    using div_mult_mod_eq [of u 8] div_mult_mod_eq [of "u div 8" 8] by linarith
qed

lemma special_letter:
  assumes "special_escape c \<ge> 0"
  shows "unescape_letter (char_of (special_escape c)) = Some c"
proof -
  have "c \<in> {CHR 0x0A, CHR 0x0D, CHR 0x09, CHR 0x5C, CHR 0x27, CHR 0x22}"
    using assms by (simp add: special_escape_cases)
  then show ?thesis
    by (elim insertE emptyE)
      (simp_all add: special_escape_def unescape_letter_def char_of_eq_iff take_bit_eq_mod)
qed

lemma unescape_esc_byte: "unescape (esc_byte c @ rest) = map_option ((#) c) (unescape rest)"
proof -
  consider (special) "special_escape c \<ge> 0"
    | (print) "\<not> special_escape c \<ge> 0" "upb_isprint c"
    | (octal) "\<not> special_escape c \<ge> 0" "\<not> upb_isprint c"
    by blast
  then show ?thesis
  proof cases
    case special
    then show ?thesis
      using special_letter [of c] by (simp add: esc_byte_def)
  next
    case print
    then have "c \<noteq> CHR 0x5C"
      by (auto simp add: special_escape_def)
    then show ?thesis
      using print by (simp add: esc_byte_def)
  next
    case octal
    let ?u = "uchar c"
    have b1: "0 \<le> ?u div 64 \<and> ?u div 64 < 8" "0 \<le> ?u div 8 mod 8 \<and> ?u div 8 mod 8 < 8"
      "0 \<le> ?u mod 8 \<and> ?u mod 8 < 8"
      using uchar_bounds [of c] by auto
    note d1 = octal_char [of "?u div 64"] and d2 = octal_char [of "?u div 8 mod 8"]
      and d3 = octal_char [of "?u mod 8"]
    show ?thesis
      using octal b1 d1 d2 d3
      by (simp add: esc_byte_def octal_recombine char_of_uchar del: of_char_Char)
  qed
qed

lemma unescape_escape: "unescape (escape s) = Some s"
proof (induction s)
  case Nil
  show ?case by (simp add: escape_def)
next
  case (Cons c s)
  have "escape (c # s) = esc_byte c @ escape s"
    by (simp add: escape_def)
  then show ?case
    using Cons.IH by (simp add: unescape_esc_byte)
qed

lemma escaped_form_esc_byte: "escaped_form 0x7f (esc_byte c @ rest) = escaped_form 0x7f rest"
proof -
  consider (special) "special_escape c \<ge> 0"
    | (print) "\<not> special_escape c \<ge> 0" "upb_isprint c"
    | (octal) "\<not> special_escape c \<ge> 0" "\<not> upb_isprint c"
    by blast
  then show ?thesis
  proof cases
    case special
    then show ?thesis
      using special_letter [of c] by (simp add: esc_byte_def)
  next
    case print
    then have "c \<noteq> CHR 0x5C"
      by (auto simp add: special_escape_def)
    then show ?thesis
      using print by (simp add: esc_byte_def upb_isprint_uchar)
  next
    case octal
    let ?u = "uchar c"
    have b1: "0 \<le> ?u div 64 \<and> ?u div 64 < 8" "0 \<le> ?u div 8 mod 8 \<and> ?u div 8 mod 8 < 8"
      "0 \<le> ?u mod 8 \<and> ?u mod 8 < 8"
      using uchar_bounds [of c] by auto
    note d1 = octal_char [of "?u div 64"] and d2 = octal_char [of "?u div 8 mod 8"]
      and d3 = octal_char [of "?u mod 8"]
    show ?thesis
      using octal b1 d1 d2 d3
      by (simp add: esc_byte_def del: of_char_Char)
  qed
qed

lemma escaped_form_escape: "escaped_form 0x7f (escape s)"
  by (induction s) (simp_all add: escape_def escaped_form_esc_byte)

lemma qual_dup_True:
  "qual_dup s (True # a) = Inr (\<lparr>sv_data = CHR ''.'' # s, sv_storage = ArenaStorage\<rparr>, a)"
  by (simp add: qual_dup_def Let_def bnd_def malloc_True CHK_OOM_def ret_def store_def memcpy_def)

lemma qual_dup_Nil:
  "qual_dup s [] = Inr (\<lparr>sv_data = CHR ''.'' # s, sv_storage = ArenaStorage\<rparr>, [])"
  by (simp add: qual_dup_def Let_def bnd_def malloc_Nil CHK_OOM_def ret_def store_def memcpy_def)

lemma qual_dup_False: "qual_dup s (False # a) = Inl OOM"
  by (simp add: qual_dup_def Let_def bnd_def malloc_False CHK_OOM_def throw_def)

section \<open>Lemmas on the converters\<close>

lemma bnd_Inr_iff: "bnd m f a = Inr r \<longleftrightarrow> (\<exists>x a1. m a = Inr (x, a1) \<and> f x a1 = Inr r)"
  by (auto simp add: bnd_def split: sum.splits)

lemma ret_Inr_iff: "ret x a = Inr (y, a') \<longleftrightarrow> y = x \<and> a' = a"
  by (auto simp add: ret_def)

lemma throw_not_Inr: "throw e a \<noteq> Inr r"
  by (simp add: throw_def)

lemma CHK_OOM_Inr_iff: "CHK_OOM v a = Inr (x, a') \<longleftrightarrow> v = Some x \<and> a' = a"
  by (cases v) (auto simp add: CHK_OOM_def ret_def throw_def)

lemma deref_Inr_iff: "deref v a = Inr (x, a') \<longleftrightarrow> v = Some x \<and> a' = a"
  by (cases v) (auto simp add: deref_def ret_def throw_def)

lemma malloc_Inr: "upb_Arena_Malloc n a = Inr (Some p, a') \<Longrightarrow> p = replicate n (CHR 0x00)"
  by (cases a) (auto simp add: upb_Arena_Malloc_def bnd_def ret_def split: if_splits)

lemma strviewdup2_Inr:
  "strviewdup2 str a = Inr (v, a') \<Longrightarrow> v = \<lparr>sv_data = sv_data str, sv_storage = ArenaStorage\<rparr>"
  by (auto simp add: strviewdup2_def bnd_Inr_iff CHK_OOM_Inr_iff ret_Inr_iff memcpy_def
      dest!: malloc_Inr split: if_splits)

lemma strviewdup_Inr:
  "strviewdup s a = Inr (v, a') \<Longrightarrow> v = \<lparr>sv_data = s, sv_storage = ArenaStorage\<rparr>"
  by (auto simp add: strviewdup_def dest: strviewdup2_Inr)

lemma qual_dup_Inr:
  "qual_dup s a = Inr (v, a') \<Longrightarrow> v = \<lparr>sv_data = CHR ''.'' # s, sv_storage = ArenaStorage\<rparr>"
  by (auto simp add: qual_dup_def Let_def bnd_Inr_iff CHK_OOM_Inr_iff ret_Inr_iff memcpy_def store_def
      dest!: malloc_Inr split: if_splits)

lemma set_if_Inr_iff:
  "set_if b m a = Inr (v, a') \<longleftrightarrow> (if b then \<exists>x. v = Some x \<and> m a = Inr (x, a') else v = None \<and> a' = a)"
  by (auto simp add: set_if_def bnd_Inr_iff ret_Inr_iff)

subsection \<open>A converter that returns, returns what it returns on the arena that never fails\<close>

lemma stableD: "stable m \<Longrightarrow> m a = Inr (y, a') \<Longrightarrow> m [] = Inr (y, [])"
  by (auto simp add: stable_def)

lemma stable_ret: "stable (ret x)"
  by (simp add: stable_def ret_def)

lemma stable_throw: "stable (throw e)"
  by (simp add: stable_def throw_def)

lemma stable_bnd: "stable m \<Longrightarrow> (\<And>x. stable (f x)) \<Longrightarrow> stable (bnd m f)"
  unfolding stable_def bnd_Inr_iff by blast

lemma stable_if: "(b \<Longrightarrow> stable m) \<Longrightarrow> (\<not> b \<Longrightarrow> stable n) \<Longrightarrow> stable (if b then m else n)"
  by simp

lemma stable_deref: "stable (deref p)"
  by (cases p) (simp_all add: deref_def stable_ret stable_throw)

lemma stable_malloc_chk:
  assumes "\<And>p. stable (g p)"
  shows "stable (bnd (upb_Arena_Malloc n) (\<lambda>p0. bnd (CHK_OOM p0) g))"
  unfolding stable_def
proof (intro allI impI)
  fix a y a'
  assume "bnd (upb_Arena_Malloc n) (\<lambda>p0. bnd (CHK_OOM p0) g) a = Inr (y, a')"
  then obtain p a1 where "upb_Arena_Malloc n a = Inr (Some p, a1)" and g: "g p a1 = Inr (y, a')"
    by (auto simp add: bnd_Inr_iff CHK_OOM_Inr_iff)
  then have "p = replicate n (CHR 0x00)"
    by (auto dest: malloc_Inr)
  moreover have "g p [] = Inr (y, [])"
    using assms g by (rule stableD)
  ultimately show "bnd (upb_Arena_Malloc n) (\<lambda>p0. bnd (CHK_OOM p0) g) [] = Inr (y, [])"
    by (simp add: bnd_def malloc_Nil CHK_OOM_def ret_def)
qed

lemma stable_new_chk:
  assumes "\<And>u. stable (g u)"
  shows "stable (bnd new_node (\<lambda>p0. bnd (CHK_OOM p0) g))"
  unfolding stable_def
proof (intro allI impI)
  fix a y a'
  assume "bnd new_node (\<lambda>p0. bnd (CHK_OOM p0) g) a = Inr (y, a')"
  then obtain a1 where "g () a1 = Inr (y, a')"
    by (auto simp add: bnd_Inr_iff CHK_OOM_Inr_iff)
  with assms have "g () [] = Inr (y, [])"
    by (rule stableD)
  then show "bnd new_node (\<lambda>p0. bnd (CHK_OOM p0) g) [] = Inr (y, [])"
    by (simp add: bnd_def new_node_def CHK_OOM_def ret_def)
qed

lemma stable_SET_OPTIONS: "stable (SET_OPTIONS src)"
  unfolding stable_def
proof (intro allI impI)
  fix a y a'
  assume "SET_OPTIONS src a = Inr (y, a')"
  then have "y = src"
    by (cases a; cases "tl a")
      (auto simp add: SET_OPTIONS_def options_serialize_def options_parse_def bnd_Inr_iff
        CHK_OOM_Inr_iff ret_Inr_iff split: if_splits)
  then show "SET_OPTIONS src [] = Inr (y, [])"
    by (simp add: SET_OPTIONS_def options_serialize_def options_parse_def bnd_def CHK_OOM_def ret_def)
qed

lemma stable_copy_options: "stable (copy_options opts)"
  by (cases opts) (simp_all add: copy_options_def stable_ret stable_bnd stable_SET_OPTIONS)

lemma stable_set_if: "stable m \<Longrightarrow> stable (set_if b m)"
  by (simp add: set_if_def stable_ret stable_bnd)

lemma stable_fill_slots:
  assumes "\<And>x. x \<in> set xs \<Longrightarrow> stable (f x)"
  shows "stable (fill_slots True f xs)"
  using assms
proof (induction xs)
  case Nil
  show ?case by (simp add: stable_ret)
next
  case (Cons x xs)
  have "stable (f x)" and "stable (fill_slots True f xs)"
    using Cons by simp_all
  then show ?case
    by (simp add: stable_bnd stable_ret)
qed

lemma fill_slots_null: "fill_slots s f xs a = Inr (ys, a') \<Longrightarrow> fill_slots True f xs a = Inr (ys, a')"
proof (cases s)
  case True
  then show "fill_slots s f xs a = Inr (ys, a') \<Longrightarrow> ?thesis" by simp
next
  case False
  assume r: "fill_slots s f xs a = Inr (ys, a')"
  have "xs = []"
  proof (cases xs)
    case Nil
    then show ?thesis .
  next
    case (Cons x zs)
    then have "fill_slots s f xs a = bnd (f x) (\<lambda>y. throw NullStore) a"
      using False by simp
    with r have "bnd (f x) (\<lambda>y. throw NullStore) a = Inr (ys, a')"
      by simp
    then have False
      by (simp add: bnd_Inr_iff throw_not_Inr)
    then show ?thesis ..
  qed
  then show ?thesis
    using r by simp
qed

lemma stable_resize_fill:
  assumes f: "\<And>x. x \<in> set xs \<Longrightarrow> stable (f x)" and g: "\<And>ys. stable (g ys)"
  shows "stable (bnd (resize n) (\<lambda>arr. bnd (fill_slots arr f xs) g))"
  unfolding stable_def
proof (intro allI impI)
  fix a y a'
  assume "bnd (resize n) (\<lambda>arr. bnd (fill_slots arr f xs) g) a = Inr (y, a')"
  then obtain arr a1 ys a2 where fl: "fill_slots arr f xs a1 = Inr (ys, a2)" and gy: "g ys a2 = Inr (y, a')"
    by (auto simp add: bnd_Inr_iff)
  have st: "stable (fill_slots True f xs)"
    by (rule stable_fill_slots) (rule f)
  have "fill_slots True f xs a1 = Inr (ys, a2)"
    using fl by (rule fill_slots_null)
  with st have "fill_slots True f xs [] = Inr (ys, [])"
    by (rule stableD)
  moreover have "g ys [] = Inr (y, [])"
    using g gy by (rule stableD)
  ultimately show "bnd (resize n) (\<lambda>arr. bnd (fill_slots arr f xs) g) [] = Inr (y, [])"
    by (simp add: bnd_def resize_def)
qed

lemma stable_resize_chk_fill:
  assumes f: "\<And>x. x \<in> set xs \<Longrightarrow> stable (f x)" and g: "\<And>ys. stable (g ys)"
  shows "stable (bnd (resize n) (\<lambda>arr. bnd (CHK_OOM (if arr then Some () else None))
           (\<lambda>_. bnd (fill_slots arr f xs) g)))"
  unfolding stable_def
proof (intro allI impI)
  fix a y a'
  assume "bnd (resize n) (\<lambda>arr. bnd (CHK_OOM (if arr then Some () else None))
           (\<lambda>_. bnd (fill_slots arr f xs) g)) a = Inr (y, a')"
  then obtain a1 ys a2 where fl: "fill_slots True f xs a1 = Inr (ys, a2)" and gy: "g ys a2 = Inr (y, a')"
    by (auto simp add: bnd_Inr_iff CHK_OOM_Inr_iff split: if_splits)
  have st: "stable (fill_slots True f xs)"
    by (rule stable_fill_slots) (rule f)
  from st fl have "fill_slots True f xs [] = Inr (ys, [])"
    by (rule stableD)
  moreover have "g ys [] = Inr (y, [])"
    using g gy by (rule stableD)
  ultimately show "bnd (resize n) (\<lambda>arr. bnd (CHK_OOM (if arr then Some () else None))
           (\<lambda>_. bnd (fill_slots arr f xs) g)) [] = Inr (y, [])"
    by (simp add: bnd_def resize_def CHK_OOM_def ret_def)
qed

lemmas stable_rules = stable_new_chk stable_malloc_chk stable_resize_chk_fill stable_resize_fill
  stable_ret stable_throw stable_deref stable_copy_options stable_set_if stable_bnd

lemma stable_strviewdup2: "stable (strviewdup2 s)"
  unfolding strviewdup2_def memcpy_def by (intro stable_rules stable_if)

lemma stable_strviewdup: "stable (strviewdup s)"
  by (simp add: strviewdup_def stable_strviewdup2)

lemma stable_qual_dup: "stable (qual_dup s)"
  unfolding qual_dup_def Let_def memcpy_def store_def by (intro stable_rules stable_if)

lemma stable_case_option:
  "stable n \<Longrightarrow> (\<And>x. stable (s x)) \<Longrightarrow> stable (case v of None \<Rightarrow> n | Some x \<Rightarrow> s x)"
  by (cases v) simp_all

lemma stable_case_prod: "(\<And>a b. stable (f a b)) \<Longrightarrow> stable (case v of (a, b) \<Rightarrow> f a b)"
  by (cases v) simp

lemma stable_store: "(\<And>q. stable (g q)) \<Longrightarrow> stable (bnd (store p i c) g)"
  by (simp add: store_def stable_throw)

lemma stable_escape_loop: "stable (escape_loop src p dst)"
proof (induction src arbitrary: p dst)
  case Nil
  show ?case by (simp add: stable_ret)
next
  case (Cons ch src)
  show ?case
    unfolding escape_loop.simps by (intro stable_if stable_store Cons.IH)
qed

lemma stable_default_bytes: "stable (default_bytes val)"
  unfolding default_bytes_def Let_def
  by (intro stable_rules stable_case_prod stable_escape_loop)

lemma stable_printf_dup: "stable (printf_dup text)"
  unfolding printf_dup_def Let_def vsnprintf_def prod.case
  by (intro stable_rules stable_if)

lemma stable_default_string: "stable (default_string f)"
proof -
  have "stable (case fd_CType f of
            kUpb_CType_Bool \<Rightarrow> strviewdup (if bool_val (fd_Default f) then ''true'' else ''false'')
          | kUpb_CType_Float \<Rightarrow> printf_dup (fmt_g 9 (decode_float (float_val (fd_Default f))))
          | kUpb_CType_Int32 \<Rightarrow> printf_dup (fmt_d (sint (int32_val (fd_Default f))))
          | kUpb_CType_UInt32 \<Rightarrow> printf_dup (fmt_u (unat (uint32_val (fd_Default f))))
          | kUpb_CType_Enum \<Rightarrow>
              bnd (deref (fd_EnumSubDef f)) (\<lambda>e.
              bnd (deref (upb_EnumDef_FindValueByNumber e (int32_val (fd_Default f)))) (\<lambda>ev.
              strviewdup (ev_Name ev)))
          | kUpb_CType_Message \<Rightarrow> throw Unreachable
          | kUpb_CType_Double \<Rightarrow> printf_dup (fmt_g 17 (decode_double (double_val (fd_Default f))))
          | kUpb_CType_Int64 \<Rightarrow> printf_dup (fmt_d (sint (int64_val (fd_Default f))))
          | kUpb_CType_UInt64 \<Rightarrow> printf_dup (fmt_u (unat (uint64_val (fd_Default f))))
          | kUpb_CType_String \<Rightarrow> strviewdup2 (str_val (fd_Default f))
          | kUpb_CType_Bytes \<Rightarrow> default_bytes (str_val (fd_Default f)))"
    by (cases "fd_CType f")
      (simp_all add: stable_strviewdup stable_printf_dup stable_strviewdup2 stable_default_bytes
        stable_throw stable_bnd stable_deref)
  then show ?thesis
    unfolding default_string_def Let_def
    by (intro stable_case_option stable_strviewdup)
qed

lemmas stable_leaves = stable_strviewdup stable_strviewdup2 stable_qual_dup stable_default_string

lemma stable_resrange: "stable (resrange_toproto r)"
  unfolding resrange_toproto_def by (intro stable_rules)

lemma stable_enumresrange: "stable (enumresrange_toproto r)"
  unfolding enumresrange_toproto_def by (intro stable_rules)

lemma stable_fielddef: "stable (fielddef_toproto f)"
  unfolding fielddef_toproto_def
  by (intro stable_rules stable_leaves stable_case_option stable_if)

lemma stable_oneofdef: "stable (oneofdef_toproto f)"
  unfolding oneofdef_toproto_def by (intro stable_rules stable_leaves)

lemma stable_enumvaldef: "stable (enumvaldef_toproto f)"
  unfolding enumvaldef_toproto_def by (intro stable_rules stable_leaves)

lemma stable_enumdef: "stable (enumdef_toproto f)"
  unfolding enumdef_toproto_def
  by (intro stable_rules stable_leaves stable_enumvaldef stable_enumresrange)

lemma stable_extrange: "stable (extrange_toproto f)"
  unfolding extrange_toproto_def by (intro stable_rules stable_leaves)

lemma stable_methoddef: "stable (methoddef_toproto f)"
  unfolding methoddef_toproto_def by (intro stable_rules stable_leaves)

lemma stable_servicedef: "stable (servicedef_toproto f)"
  unfolding servicedef_toproto_def by (intro stable_rules stable_leaves stable_methoddef)

lemma stable_msgdef: "stable (msgdef_toproto m)"
proof (induction m rule: msgdef_toproto.induct)
  case (1 m)
  show ?case
    by (subst msgdef_toproto.simps)
      (intro stable_rules stable_leaves stable_fielddef stable_oneofdef stable_enumdef
        stable_extrange stable_resrange "1.IH", assumption)
qed

lemma stable_filedef: "stable (filedef_toproto f)"
  unfolding filedef_toproto_def
  by (intro stable_rules stable_leaves stable_case_option stable_msgdef stable_enumdef
      stable_servicedef stable_fielddef)

lemma conversion_of: "stable (f x) \<Longrightarrow> f x a = Inr (y, a') \<Longrightarrow> conversion f x = Some y"
  by (auto simp add: conversion_def dest: stableD)

subsection \<open>Evaluation on the arena that never fails\<close>

lemma strviewdup_ok: "strviewdup s [] = Inr (arena_view s, [])"
  by (simp add: strviewdup_def strviewdup2_def bnd_def malloc_Nil CHK_OOM_def memcpy_def ret_def arena_view_def)

lemma strviewdup2_ok: "strviewdup2 v [] = Inr (arena_view (sv_data v), [])"
  by (simp add: strviewdup2_def bnd_def malloc_Nil CHK_OOM_def memcpy_def ret_def arena_view_def)

lemma qual_dup_ok: "qual_dup s [] = Inr (arena_view (CHR ''.'' # s), [])"
  by (simp add: qual_dup_Nil arena_view_def)

lemma printf_dup_ok: "length text < 32 \<Longrightarrow> printf_dup text [] = Inr (arena_view text, [])"
  by (simp add: printf_dup_def Let_def vsnprintf_def bnd_def malloc_Nil CHK_OOM_def ret_def arena_view_def)

lemma new_node_ok: "bnd new_node (\<lambda>p0. bnd (CHK_OOM p0) g) [] = g () []"
  by (simp add: new_node_def bnd_def ret_def CHK_OOM_def)

lemma resize_ok: "bnd (resize n) g [] = g True []"
  by (simp add: resize_def bnd_def)

lemma digit_char_eval:
  "digit_char 0 = CHR ''0''" "digit_char 1 = CHR ''1''" "digit_char 2 = CHR ''2''"
  "digit_char 3 = CHR ''3''" "digit_char 4 = CHR ''4''" "digit_char 5 = CHR ''5''"
  "digit_char 6 = CHR ''6''" "digit_char 7 = CHR ''7''" "digit_char 8 = CHR ''8''"
  "digit_char 9 = CHR ''9''"
  by (simp_all add: digit_char_def char_of_eq_iff take_bit_eq_mod)

lemma bnd_assoc: "bnd (bnd m f) g = bnd m (\<lambda>x. bnd (f x) g)"
  by (rule ext) (simp add: bnd_def split: sum.splits)

lemma bnd_eval: "m [] = Inr (x, []) \<Longrightarrow> bnd m g [] = g x []"
  by (simp add: bnd_def)

lemma CHK_OOM_Some: "CHK_OOM (Some x) = ret x"
  by (simp add: CHK_OOM_def)

lemma deref_Some: "deref (Some x) = ret x"
  by (simp add: deref_def)

lemma ret_eval: "ret x [] = Inr (x, [])"
  by (simp add: ret_def)

lemma strviewdup_bnd: "bnd (strviewdup s) g [] = g (arena_view s) []"
  by (simp add: bnd_def strviewdup_ok)

lemma strviewdup2_bnd: "bnd (strviewdup2 v) g [] = g (arena_view (sv_data v)) []"
  by (simp add: bnd_def strviewdup2_ok)

lemma qual_dup_bnd: "bnd (qual_dup s) g [] = g (arena_view (CHR ''.'' # s)) []"
  by (simp add: bnd_def qual_dup_ok)

lemma printf_dup_bnd: "length text < 32 \<Longrightarrow> bnd (printf_dup text) g [] = g (arena_view text) []"
  by (simp add: bnd_def printf_dup_ok)

lemmas eval_simps = bnd_assoc new_node_ok resize_ok strviewdup_bnd strviewdup2_bnd qual_dup_bnd
  set_if_def copy_options_def deref_Some CHK_OOM_Some ret_eval

lemma ex_field_x_eval: "fielddef_toproto ex_field_x [] = Inr (ex_field_x_proto, [])"
  by (simp add: fielddef_toproto_def ex_field_x_def ex_field_x_proto_def zero_value_def eval_simps
      default_string_def printf_dup_bnd fmt_d_def digit_char_eval)

lemma ex_field_y_eval: "fielddef_toproto ex_field_y [] = Inr (ex_field_y_proto, [])"
  by (simp add: fielddef_toproto_def ex_field_y_def ex_field_y_proto_def eval_simps)

lemma ex_field_e_eval: "fielddef_toproto ex_field_e [] = Inr (ex_field_e_proto, [])"
  by (simp add: fielddef_toproto_def ex_field_e_def ex_field_e_proto_def ex_enum_def zero_value_def
      eval_simps default_string_def upb_EnumDef_FindValueByNumber_def)

lemma ex_enum_eval: "enumdef_toproto ex_enum [] = Inr (ex_enum_proto, [])"
  by (simp add: enumdef_toproto_def enumvaldef_toproto_def enumresrange_toproto_def
      ex_enum_def ex_enum_proto_def eval_simps)

lemma ex_msg_eval: "msgdef_toproto ex_msg [] = Inr (ex_msg_proto, [])"
  by (simp add: msgdef_toproto.simps ex_msg_def ex_msg_proto_def eval_simps
      bnd_eval [of "fielddef_toproto ex_field_x", OF ex_field_x_eval] bnd_eval [of "fielddef_toproto ex_field_y", OF ex_field_y_eval])

lemma ex_msg_empty_eval: "msgdef_toproto ex_msg_empty [] = Inr (ex_msg_empty_proto, [])"
  by (simp add: msgdef_toproto.simps ex_msg_empty_def ex_msg_empty_proto_def eval_simps)

lemma ex_method_eval: "methoddef_toproto (ex_method n) [] = Inr (ex_method_proto n, [])"
  by (simp add: methoddef_toproto_def ex_method_def ex_method_proto_def eval_simps)

lemma ex_method_bnd: "bnd (methoddef_toproto (ex_method n)) g [] = g (ex_method_proto n) []"
  by (simp add: bnd_def ex_method_eval)

lemma ex_service_eval: "servicedef_toproto ex_service [] = Inr (ex_service_proto, [])"
  by (simp add: servicedef_toproto_def ex_service_def ex_service_proto_def eval_simps
      ex_method_bnd)

lemma ex_file_eval: "filedef_toproto ex_file [] = Inr (ex_file_proto, [])"
  by (simp add: filedef_toproto_def ex_file_def ex_file_proto_def eval_simps
      bnd_eval [of "msgdef_toproto ex_msg", OF ex_msg_eval] bnd_eval [of "msgdef_toproto ex_msg_empty", OF ex_msg_empty_eval] bnd_eval [of "enumdef_toproto ex_enum", OF ex_enum_eval]
      bnd_eval [of "servicedef_toproto ex_service", OF ex_service_eval])

subsection \<open>Repeated children\<close>

lemma fill_slots_conversion:
  assumes st: "\<And>x. stable (f x)" and r: "fill_slots s f xs a = Inr (ys, a')"
  shows "slots_hold f xs ys"
  using r
proof (induction xs arbitrary: ys a)
  case Nil
  then show ?case by (simp add: ret_Inr_iff slots_hold_def)
next
  case (Cons x xs)
  from Cons.prems obtain y a2 zs where
    y: "f x a = Inr (y, a2)" and zs: "fill_slots s f xs a2 = Inr (zs, a')" and ys: "ys = y # zs"
    by (auto simp add: bnd_Inr_iff ret_Inr_iff throw_not_Inr split: if_splits)
  have "conversion f x = Some y"
    using st y by (rule conversion_of)
  moreover have "slots_hold f xs zs"
    using zs by (rule Cons.IH)
  ultimately show ?case
    by (simp add: ys slots_hold_def)
qed

lemma fill_slots_ret: "fill_slots s ret xs a = Inr (ys, a') \<Longrightarrow> ys = xs"
  by (induction xs arbitrary: ys a)
    (auto simp add: bnd_Inr_iff ret_Inr_iff throw_not_Inr split: if_splits)

lemmas fill_slots_results =
  fill_slots_conversion [OF stable_fielddef] fill_slots_conversion [OF stable_oneofdef]
  fill_slots_conversion [OF stable_msgdef] fill_slots_conversion [OF stable_enumdef]
  fill_slots_conversion [OF stable_extrange] fill_slots_conversion [OF stable_resrange]
  fill_slots_conversion [OF stable_enumvaldef] fill_slots_conversion [OF stable_enumresrange]
  fill_slots_conversion [OF stable_methoddef] fill_slots_conversion [OF stable_servicedef]

lemma stable_dep: "stable (bnd (deref dep) strviewdup)"
  by (intro stable_rules stable_leaves)

lemma msgdef_slots:
  assumes "msgdef_toproto m a = Inr (p, a')"
  shows "slots_hold fielddef_toproto (msg_Fields m) (dp_field p)
       \<and> slots_hold oneofdef_toproto (msg_Oneofs m) (dp_oneof_decl p)
       \<and> slots_hold msgdef_toproto (msg_NestedMessages m) (dp_nested_type p)
       \<and> slots_hold enumdef_toproto (msg_NestedEnums m) (dp_enum_type p)
       \<and> slots_hold fielddef_toproto (msg_NestedExtensions m) (dp_extension p)
       \<and> slots_hold extrange_toproto (msg_ExtensionRanges m) (dp_extension_range p)
       \<and> slots_hold resrange_toproto (msg_ReservedRanges m) (dp_reserved_range p)
       \<and> dp_reserved_name p = msg_ReservedNames m"
  using assms
  by (subst (asm) msgdef_toproto.simps)
    (auto simp add: bnd_Inr_iff ret_Inr_iff dest!: fill_slots_results fill_slots_ret)

lemma enumdef_slots:
  assumes "enumdef_toproto e a = Inr (p, a')"
  shows "slots_hold enumvaldef_toproto (ed_Values e) (edp_value p)
       \<and> slots_hold enumresrange_toproto (ed_ReservedRanges e) (edp_reserved_range p)
       \<and> edp_reserved_name p = ed_ReservedNames e"
  using assms unfolding enumdef_toproto_def
  by (auto simp add: bnd_Inr_iff ret_Inr_iff dest!: fill_slots_results fill_slots_ret)

lemma servicedef_slots:
  assumes "servicedef_toproto s a = Inr (p, a')"
  shows "slots_hold methoddef_toproto (sd_Methods s) (sdp_method p)"
  using assms unfolding servicedef_toproto_def
  by (auto simp add: bnd_Inr_iff ret_Inr_iff dest!: fill_slots_results fill_slots_ret)

lemma filedef_slots:
  assumes "filedef_toproto f a = Inr (p, a')"
  shows "slots_hold (\<lambda>dep. bnd (deref dep) strviewdup) (fl_Dependencies f) (fdsc_dependency p)
       \<and> fdsc_public_dependency p = fl_PublicDependencyIndexes f
       \<and> fdsc_weak_dependency p = fl_WeakDependencyIndexes f
       \<and> slots_hold msgdef_toproto (fl_TopLevelMessages f) (fdsc_message_type p)
       \<and> slots_hold enumdef_toproto (fl_TopLevelEnums f) (fdsc_enum_type p)
       \<and> slots_hold servicedef_toproto (fl_Services f) (fdsc_service p)
       \<and> slots_hold fielddef_toproto (fl_TopLevelExtensions f) (fdsc_extension p)"
  using assms unfolding filedef_toproto_def
  by (auto simp add: bnd_Inr_iff ret_Inr_iff
      dest!: fill_slots_results fill_slots_ret fill_slots_conversion [OF stable_dep])

section \<open>Lemmas on the default values\<close>

declare dec_nat.simps [simp del] ndigits.simps [simp del]

lemma fp_eq_Infinity: "fp_eq v (Infinity s) \<longleftrightarrow> v = Infinity s"
  by (cases v) auto

lemma fp_eq_self: "fp_eq v v \<longleftrightarrow> (\<forall>s. v \<noteq> NaN s)"
  by (cases v) auto

lemma length_dec_nat: "0 < k \<Longrightarrow> n < 10 ^ k \<Longrightarrow> length (dec_nat n) \<le> k"
proof (induction k arbitrary: n)
  case 0
  then show ?case by simp
next
  case (Suc k)
  show ?case
  proof (cases "n < 10")
    case True
    then show ?thesis by (subst dec_nat.simps) simp
  next
    case False
    then have k: "0 < k"
      using Suc.prems by (cases k) simp_all
    have "n div 10 < 10 ^ k"
      using Suc.prems by (simp add: less_mult_imp_div_less mult.commute)
    then have "length (dec_nat (n div 10)) \<le> k"
      using k by (intro Suc.IH)
    then show ?thesis
      using False by (subst dec_nat.simps) simp
  qed
qed

lemma ndigits_le: "n < 10 ^ k \<Longrightarrow> ndigits n \<le> k"
proof (induction k arbitrary: n)
  case 0
  then show ?case by (subst ndigits.simps) simp
next
  case (Suc k)
  have "n div 10 < 10 ^ k"
    using Suc.prems by (simp add: less_mult_imp_div_less mult.commute)
  then have "ndigits (n div 10) \<le> k"
    by (rule Suc.IH)
  then show ?case
    by (subst ndigits.simps) simp
qed

lemma length_fmt_u: "n < 10 ^ k \<Longrightarrow> 0 < k \<Longrightarrow> length (fmt_u n) \<le> k"
  by (simp add: fmt_u_def length_dec_nat)

lemma length_fmt_d: "\<bar>i\<bar> < 10 ^ k \<Longrightarrow> 0 < k \<Longrightarrow> length (fmt_d i) \<le> k + 1"
proof -
  assume b: "\<bar>i\<bar> < 10 ^ k" and k: "0 < k"
  have "nat \<bar>i\<bar> < 10 ^ k"
    using b by (simp add: nat_less_iff)
  then have "length (dec_nat (nat \<bar>i\<bar>)) \<le> k"
    using k by (intro length_dec_nat)
  then show ?thesis
    by (auto simp add: fmt_d_def abs_if split: if_splits)
qed

lemma length_digits_fixed: "length (digits_fixed P n) = P"
  by (induction P arbitrary: n) simp_all

lemma length_strip_zeros: "length (strip_zeros s) \<le> length s"
  using length_dropWhile_le [of "\<lambda>c. c = CHR ''0''" "rev s"] by (simp add: strip_zeros_def)

lemma length_with_fraction: "length (with_fraction ip fr) \<le> length ip + 1 + length fr"
  using length_strip_zeros [of fr] by (simp add: with_fraction_def Let_def)

lemma length_exp_text: "\<bar>X\<bar> < 1000 \<Longrightarrow> length (exp_text X) \<le> 5"
proof -
  assume "\<bar>X\<bar> < 1000"
  then have "nat \<bar>X\<bar> < 10 ^ 3"
    by simp
  then have "length (dec_nat (nat \<bar>X\<bar>)) \<le> 3"
    by (intro length_dec_nat) simp_all
  moreover have "\<bar>X\<bar> < 10 \<Longrightarrow> length (dec_nat (nat \<bar>X\<bar>)) \<le> 1"
    using length_dec_nat [of 1 "nat \<bar>X\<bar>"] by simp
  ultimately show ?thesis
    by (auto simp add: exp_text_def)
qed

lemma dec_exponent_bounds:
  assumes "num div den < 10 ^ B" "den \<le> 10 ^ B"
  shows "\<bar>dec_exponent num den\<bar> \<le> int B + 1"
proof -
  have "ndigits (num div den) \<le> B"
    using assms(1) by (rule ndigits_le)
  moreover have "(den - 1) div num < 10 ^ B"
  proof (cases "den = 0")
    case True
    then show ?thesis by simp
  next
    case False
    have "(den - 1) div num \<le> den - 1"
      by (rule div_le_dividend)
    also have "\<dots> < den"
      using False by simp
    finally show ?thesis
      using assms(2) by (rule less_le_trans)
  qed
  then have "ndigits ((den - 1) div num) \<le> B"
    by (rule ndigits_le)
  ultimately show ?thesis
    unfolding dec_exponent_def by (cases "den \<le> num") auto
qed

lemma sig_digits_exponent:
  assumes "num div den < 10 ^ B" "den \<le> 10 ^ B" "sig_digits P num den = (D, X)"
  shows "\<bar>X\<bar> \<le> int B + 2"
proof (cases "num = 0")
  case True
  then show ?thesis
    using assms(3) by (simp add: sig_digits_def)
next
  case False
  have "X = dec_exponent num den \<or> X = dec_exponent num den + 1"
    using assms(3) False by (auto simp add: sig_digits_def Let_def split: if_splits)
  then show ?thesis
    using dec_exponent_bounds [OF assms(1,2)] by auto
qed

lemma length_fmt_g_abs:
  assumes "num div den < 10 ^ B" "den \<le> 10 ^ B" "B < 998" "0 < P"
  shows "length (fmt_g_abs P num den) \<le> P + 6"
proof -
  obtain D X where dx: "sig_digits P num den = (D, X)"
    by (cases "sig_digits P num den")
  let ?ds = "digits_fixed P D"
  have "\<bar>X\<bar> \<le> int B + 2"
    using assms(1,2) dx by (rule sig_digits_exponent)
  then have X: "\<bar>X\<bar> < 1000"
    using assms(3) by simp
  have l: "length ?ds = P"
    by (rule length_digits_fixed)
  consider (pos) "0 \<le> X" "X < int P" | (neg) "- 4 \<le> X" "X < 0" | (exp) "\<not> (- 4 \<le> X \<and> X < int P)"
    by linarith
  then show ?thesis
  proof cases
    case pos
    have "length (with_fraction (take (nat X + 1) ?ds) (drop (nat X + 1) ?ds)) \<le> P + 1"
      using length_with_fraction [of "take (nat X + 1) ?ds" "drop (nat X + 1) ?ds"] l by simp
    then show ?thesis
      using pos by (simp add: fmt_g_abs_def dx Let_def)
  next
    case neg
    have "length (with_fraction ''0'' (replicate (nat (- X - 1)) (CHR ''0'') @ ?ds)) \<le> P + 5"
      using length_with_fraction [of "''0''" "replicate (nat (- X - 1)) (CHR ''0'') @ ?ds"] l neg
      by simp
    then show ?thesis
      using neg by (simp add: fmt_g_abs_def dx Let_def)
  next
    case exp
    have "length (with_fraction (take 1 ?ds) (drop 1 ?ds)) \<le> P + 1"
      using length_with_fraction [of "take 1 ?ds" "drop 1 ?ds"] l assms(4) by simp
    moreover have "length (exp_text X) \<le> 5"
      using X by (rule length_exp_text)
    moreover have "fmt_g_abs P num den = with_fraction (take 1 ?ds) (drop 1 ?ds) @ exp_text X"
      unfolding fmt_g_abs_def dx Let_def prod.case using exp by (rule if_not_P)
    ultimately show ?thesis
      by simp
  qed
qed

lemma length_fmt_g_Finite:
  assumes "num div den < 10 ^ B" "den \<le> 10 ^ B" "B < 998" "0 < P"
  shows "length (fmt_g P (Finite s num den)) \<le> P + 7"
  using length_fmt_g_abs [OF assms] by simp

lemma unat_take_bit_less: "unat (take_bit n (w :: 'a::len word)) < 2 ^ n"
  by (simp add: unsigned_take_bit_eq)

lemma decode_double_bounds:
  assumes "decode_double w = Finite s num den"
  shows "num div den < 2 ^ 1024 \<and> den \<le> 2 ^ 1074"
proof -
  let ?e = "unat (take_bit 11 (drop_bit 52 w))"
  let ?f = "unat (take_bit 52 w)"
  have f: "?f < 2 ^ 52"
    by (rule unat_take_bit_less)
  have e: "?e < 2 ^ 11"
    by (rule unat_take_bit_less)
  consider (sub) "?e = 0" | (big) "?e \<noteq> 2047" "1075 \<le> ?e" | (mid) "?e \<noteq> 0" "?e < 1075"
    | (special) "?e = 2047"
    by linarith
  then show ?thesis
  proof cases
    case sub
    then have "num = ?f" "den = 2 ^ 1074"
      using assms by (simp_all add: decode_double_def Let_def)
    then show ?thesis
      using f by simp
  next
    case big
    then have n: "num = (2 ^ 52 + ?f) * 2 ^ (?e - 1075)" and d: "den = 1"
      using assms by (simp_all add: decode_double_def Let_def)
    have "?e - 1075 \<le> 971"
      using e big by simp
    then have "(2::nat) ^ (?e - 1075) \<le> 2 ^ 971"
      by (intro power_increasing) simp_all
    moreover have "2 ^ 52 + ?f < (2::nat) ^ 53"
      using f by simp
    ultimately have "(2 ^ 52 + ?f) * 2 ^ (?e - 1075) < (2::nat) ^ 53 * 2 ^ 971"
      by (intro mult_less_le_imp_less) simp_all
    then show ?thesis
      by (simp add: n d)
  next
    case mid
    then have n: "num = 2 ^ 52 + ?f" and d: "den = 2 ^ (1075 - ?e)"
      using assms by (simp_all add: decode_double_def Let_def)
    have "num div den \<le> num"
      by (rule div_le_dividend)
    moreover have "num < 2 ^ 1024"
      using f by (simp add: n)
    ultimately have "num div den < 2 ^ 1024"
      by (rule le_less_trans)
    moreover have "den \<le> 2 ^ 1074"
      unfolding d using mid by (intro power_increasing) simp_all
    ultimately show ?thesis
      by (rule conjI)
  next
    case special
    then show ?thesis
      using assms by (simp add: decode_double_def Let_def split: if_splits)
  qed
qed

lemma decode_float_bounds:
  assumes "decode_float w = Finite s num den"
  shows "num div den < 2 ^ 128 \<and> den \<le> 2 ^ 149"
proof -
  let ?e = "unat (take_bit 8 (drop_bit 23 w))"
  let ?f = "unat (take_bit 23 w)"
  have f: "?f < 2 ^ 23"
    by (rule unat_take_bit_less)
  have e: "?e < 2 ^ 8"
    by (rule unat_take_bit_less)
  consider (sub) "?e = 0" | (big) "?e \<noteq> 255" "150 \<le> ?e" | (mid) "?e \<noteq> 0" "?e < 150"
    | (special) "?e = 255"
    by linarith
  then show ?thesis
  proof cases
    case sub
    then have "num = ?f" "den = 2 ^ 149"
      using assms by (simp_all add: decode_float_def Let_def)
    then show ?thesis
      using f by simp
  next
    case big
    then have n: "num = (2 ^ 23 + ?f) * 2 ^ (?e - 150)" and d: "den = 1"
      using assms by (simp_all add: decode_float_def Let_def)
    have "?e - 150 \<le> 104"
      using e big by simp
    then have "(2::nat) ^ (?e - 150) \<le> 2 ^ 104"
      by (intro power_increasing) simp_all
    moreover have "2 ^ 23 + ?f < (2::nat) ^ 24"
      using f by simp
    ultimately have "(2 ^ 23 + ?f) * 2 ^ (?e - 150) < (2::nat) ^ 24 * 2 ^ 104"
      by (intro mult_less_le_imp_less) simp_all
    then show ?thesis
      by (simp add: n d)
  next
    case mid
    then have n: "num = 2 ^ 23 + ?f" and d: "den = 2 ^ (150 - ?e)"
      using assms by (simp_all add: decode_float_def Let_def)
    have "num div den \<le> num"
      by (rule div_le_dividend)
    moreover have "num < 2 ^ 128"
      using f by (simp add: n)
    ultimately have "num div den < 2 ^ 128"
      by (rule le_less_trans)
    moreover have "den \<le> 2 ^ 149"
      unfolding d using mid by (intro power_increasing) simp_all
    ultimately show ?thesis
      by (rule conjI)
  next
    case special
    then show ?thesis
      using assms by (simp add: decode_float_def Let_def split: if_splits)
  qed
qed

lemma pow2_le_pow10: "(2::nat) ^ 1074 \<le> 10 ^ 324" "(2::nat) ^ 1024 \<le> 10 ^ 324"
  "(2::nat) ^ 149 \<le> 10 ^ 45" "(2::nat) ^ 128 \<le> 10 ^ 45"
  by simp_all

lemma length_fmt_g_double: "length (fmt_g 17 (decode_double w)) \<le> 24"
proof (cases "decode_double w")
  case (Finite s num den)
  then have "num div den < 2 ^ 1024" and "den \<le> 2 ^ 1074"
    using decode_double_bounds by blast+
  then have "num div den < 10 ^ 324" and "den \<le> 10 ^ 324"
    using pow2_le_pow10(1,2) by (blast intro: less_le_trans order_trans)+
  then have "length (fmt_g 17 (Finite s num den)) \<le> 17 + 7"
    by (rule length_fmt_g_Finite) simp_all
  then show ?thesis
    by (simp add: Finite)
next
  case (Infinity s)
  then show ?thesis by simp
next
  case (NaN s)
  then show ?thesis by simp
qed

lemma length_fmt_g_float: "length (fmt_g 9 (decode_float w)) \<le> 16"
proof (cases "decode_float w")
  case (Finite s num den)
  then have "num div den < 2 ^ 128" and "den \<le> 2 ^ 149"
    using decode_float_bounds by blast+
  then have "num div den < 10 ^ 45" and "den \<le> 10 ^ 45"
    using pow2_le_pow10(3,4) by (blast intro: less_le_trans order_trans)+
  then have "length (fmt_g 9 (Finite s num den)) \<le> 9 + 7"
    by (rule length_fmt_g_Finite) simp_all
  then show ?thesis
    by (simp add: Finite)
next
  case (Infinity s)
  then show ?thesis by simp
next
  case (NaN s)
  then show ?thesis by simp
qed

lemma length_fmt_u32: "length (fmt_u (unat (w :: 32 word))) \<le> 10"
proof -
  have "unat w < 2 ^ 32"
    using unsigned_less [of w] by simp
  then have "unat w < 10 ^ 10"
    by simp
  then show ?thesis
    by (rule length_fmt_u) simp
qed

lemma length_fmt_u64: "length (fmt_u (unat (w :: 64 word))) \<le> 20"
proof -
  have "unat w < 2 ^ 64"
    using unsigned_less [of w] by simp
  then have "unat w < 10 ^ 20"
    by simp
  then show ?thesis
    by (rule length_fmt_u) simp
qed

lemma length_fmt_d32: "length (fmt_d (sint (w :: 32 word))) \<le> 11"
proof -
  have "sint w < 2 ^ 31" "- (2 ^ 31) \<le> sint w"
    using sint_lt [of w] sint_ge [of w] by simp_all
  then have "\<bar>sint w\<bar> < 10 ^ 10"
    by simp
  then have "length (fmt_d (sint w)) \<le> 10 + 1"
    by (rule length_fmt_d) simp
  then show ?thesis by simp
qed

lemma length_fmt_d64: "length (fmt_d (sint (w :: 64 word))) \<le> 20"
proof -
  have "sint w < 2 ^ 63" "- (2 ^ 63) \<le> sint w"
    using sint_lt [of w] sint_ge [of w] by simp_all
  then have "\<bar>sint w\<bar> < 10 ^ 19"
    by simp
  then have "length (fmt_d (sint w)) \<le> 19 + 1"
    by (rule length_fmt_d) simp
  then show ?thesis by simp
qed

lemma printf_dup_True: "length text < 32 \<Longrightarrow> printf_dup text (True # a) = Inr (arena_view text, a)"
  by (simp add: printf_dup_def Let_def vsnprintf_def bnd_def malloc_True CHK_OOM_def ret_def arena_view_def)

lemma printf_dup_False: "printf_dup text (False # a) = Inl OOM"
  by (simp add: printf_dup_def Let_def bnd_def malloc_False CHK_OOM_def throw_def)

lemma printf_dup_no_assert: "length text < 32 \<Longrightarrow> printf_dup text a \<noteq> Inl AssertFailed"
proof (cases a)
  case Nil
  assume "length text < 32"
  then show ?thesis by (simp add: Nil printf_dup_ok)
next
  case (Cons b bs)
  assume "length text < 32"
  then show ?thesis by (cases b) (simp_all add: Cons printf_dup_True printf_dup_False)
qed

lemma printed_in_fullI: "length text < 32 \<Longrightarrow> printed_in_full text"
  by (simp add: printed_in_full_def printf_dup_ok printf_dup_True printf_dup_False)

lemma bnd_Inl_iff:
  "bnd m f a = Inl e \<longleftrightarrow> m a = Inl e \<or> (\<exists>x a1. m a = Inr (x, a1) \<and> f x a1 = Inl e)"
  by (auto simp add: bnd_def split: sum.splits)

lemma malloc_not_Inl: "upb_Arena_Malloc n a \<noteq> Inl e"
  by (cases a) (simp_all add: upb_Arena_Malloc_def bnd_def ret_def)

lemma CHK_OOM_Inl: "CHK_OOM v a = Inl e \<Longrightarrow> e = OOM"
  by (cases v) (simp_all add: CHK_OOM_def throw_def ret_def)

lemma deref_Inl: "deref v a = Inl e \<Longrightarrow> e = NullDeref"
  by (cases v) (simp_all add: deref_def throw_def ret_def)

lemma strviewdup2_Inl: "strviewdup2 s a = Inl e \<Longrightarrow> e = OOM"
  by (auto simp add: strviewdup2_def bnd_Inl_iff malloc_not_Inl CHK_OOM_Inr_iff memcpy_def ret_def
      dest!: malloc_Inr CHK_OOM_Inl)

lemma strviewdup_Inl: "strviewdup s a = Inl e \<Longrightarrow> e = OOM"
  by (auto simp add: strviewdup_def dest: strviewdup2_Inl)

lemma default_bytes_Inl: "default_bytes v a = Inl e \<Longrightarrow> e = OOM"
proof -
  assume r: "default_bytes v a = Inl e"
  have "escape_loop (sv_data v) (replicate (escaped_size (sv_data v) 0) (CHR 0x00)) 0 a1 \<noteq> Inl e" for a1
    using escape_loop_writes [of 0 "sv_data v" "replicate (escaped_size (sv_data v) 0) (CHR 0x00)" a1]
    by (simp add: escaped_size_eq)
  then show ?thesis
    using r
    by (auto simp add: default_bytes_def Let_def bnd_Inl_iff malloc_not_Inl CHK_OOM_Inr_iff ret_def
        dest!: malloc_Inr CHK_OOM_Inl split: prod.splits)
qed

lemma printf_dup_Inl: "length text < 32 \<Longrightarrow> printf_dup text a = Inl e \<Longrightarrow> e = OOM"
  by (auto simp add: printf_dup_def Let_def vsnprintf_def bnd_Inl_iff malloc_not_Inl CHK_OOM_Inr_iff
      ret_def dest!: CHK_OOM_Inl)

lemma printf_dup_numeric_Inl:
  "printf_dup (fmt_d (sint (i32 :: 32 word))) a = Inl e \<Longrightarrow> e = OOM"
  "printf_dup (fmt_d (sint (i64 :: 64 word))) a = Inl e \<Longrightarrow> e = OOM"
  "printf_dup (fmt_u (unat (u32 :: 32 word))) a = Inl e \<Longrightarrow> e = OOM"
  "printf_dup (fmt_u (unat (u64 :: 64 word))) a = Inl e \<Longrightarrow> e = OOM"
  "printf_dup (fmt_g 9 (decode_float w32)) a = Inl e \<Longrightarrow> e = OOM"
  "printf_dup (fmt_g 17 (decode_double w64)) a = Inl e \<Longrightarrow> e = OOM"
  using length_fmt_d32 [of i32] length_fmt_d64 [of i64] length_fmt_u32 [of u32]
    length_fmt_u64 [of u64] length_fmt_g_float [of w32] length_fmt_g_double [of w64]
  by (auto dest!: printf_dup_Inl [rotated])

lemma default_string_faults:
  assumes "default_string f a = Inl e"
  shows "e = OOM \<or> e = NullDeref \<or> e = Unreachable"
  using assms
  by (cases "fd_CType f")
    (auto simp add: default_string_def Let_def bnd_Inl_iff throw_def
      dest!: strviewdup_Inl strviewdup2_Inl default_bytes_Inl deref_Inl printf_dup_numeric_Inl
      split: option.splits if_splits)

subsection \<open>Evaluation of float and double defaults\<close>











section \<open>The claims\<close>

text \<open>
  C9. \<^verbatim>\<open>qual_dup\<close> (the spec's \<open>qualify\<close>) returns the input name with a dot before it, in
  arena storage, whenever its allocation succeeds, for every name (the empty one too); the
  only other outcome is the long jump on a failed allocation. The result begins with a dot
  and is one byte longer than the name.
\<close>

theorem qual_dup_prepends_dot:
  "qual_dup s (True # a) = Inr (\<lparr>sv_data = CHR ''.'' # s, sv_storage = ArenaStorage\<rparr>, a)
   \<and> qual_dup s [] = Inr (\<lparr>sv_data = CHR ''.'' # s, sv_storage = ArenaStorage\<rparr>, [])
   \<and> qual_dup s (False # a) = Inl OOM
   \<and> hd (CHR ''.'' # s) = CHR ''.''
   \<and> length (CHR ''.'' # s) = length s + 1"
  by (simp add: qual_dup_True qual_dup_Nil qual_dup_False)


text \<open>
  C3 fails on the code at the byte \<open>0x7f\<close>: \<^verbatim>\<open>upb_isprint\<close> accepts it, so
  \<^verbatim>\<open>default_bytes\<close> copies it to the output as it is, and the output is not of the form
  the claim describes (with \<open>0x7e\<close> as the last byte that stands for itself).
\<close>

theorem default_bytes_del_verbatim:
  "default_bytes \<lparr>sv_data = [CHR 0x7F], sv_storage = DefStorage\<rparr> []
     = Inr (\<lparr>sv_data = [CHR 0x7F], sv_storage = ArenaStorage\<rparr>, [])
   \<and> \<not> escaped_form 0x7e [CHR 0x7F]"
  by (simp add: default_bytes_def Let_def bnd_def malloc_Nil CHK_OOM_def ret_def store_def
      special_escape_def upb_isprint_def schar_def uchar_def)

text \<open>
  C6. In a field the converter returns: if the field is a sub-message reference, the type
  name is the full name of the message it refers to with a dot before it, whether or not
  the field also counts as enum-typed; if it is enum-typed and not a sub-message
  reference, the type name is the full name of its enum with a dot before it; otherwise
  there is no type name.
\<close>

theorem field_type_name:
  assumes "fielddef_toproto f a = Inr (p, a')"
  shows "(fd_IsSubMessage f \<longrightarrow>
            (\<exists>full. fd_MessageSubDef f = Some full
               \<and> fdp_type_name p = Some \<lparr>sv_data = CHR ''.'' # full, sv_storage = ArenaStorage\<rparr>))
       \<and> (\<not> fd_IsSubMessage f \<and> fd_CType f = kUpb_CType_Enum \<longrightarrow>
            (\<exists>e. fd_EnumSubDef f = Some e
               \<and> fdp_type_name p = Some \<lparr>sv_data = CHR ''.'' # ed_FullName e, sv_storage = ArenaStorage\<rparr>))
       \<and> (\<not> fd_IsSubMessage f \<and> fd_CType f \<noteq> kUpb_CType_Enum \<longrightarrow> fdp_type_name p = None)"
  using assms unfolding fielddef_toproto_def
  by (auto simp add: bnd_Inr_iff ret_Inr_iff deref_Inr_iff throw_not_Inr dest!: qual_dup_Inr split: if_splits)

theorem field_type_name_witness:
  "fielddef_toproto ex_field_y [] = Inr (ex_field_y_proto, [])
   \<and> fd_IsSubMessage ex_field_y \<and> fd_MessageSubDef ex_field_y = Some ''a.b.M''
   \<and> fdp_type_name ex_field_y_proto = Some \<lparr>sv_data = ''.a.b.M'', sv_storage = ArenaStorage\<rparr>
   \<and> fielddef_toproto ex_field_e [] = Inr (ex_field_e_proto, [])
   \<and> \<not> fd_IsSubMessage ex_field_e \<and> fd_CType ex_field_e = kUpb_CType_Enum
   \<and> fdp_type_name ex_field_e_proto = Some \<lparr>sv_data = ''.a.b.E'', sv_storage = ArenaStorage\<rparr>
   \<and> fielddef_toproto ex_field_x [] = Inr (ex_field_x_proto, [])
   \<and> \<not> fd_IsSubMessage ex_field_x \<and> fd_CType ex_field_x \<noteq> kUpb_CType_Enum
   \<and> fdp_type_name ex_field_x_proto = None"
proof -
  have y: "fd_IsSubMessage ex_field_y" "fd_MessageSubDef ex_field_y = Some ''a.b.M''"
    by (simp_all add: ex_field_y_def)
  have e: "\<not> fd_IsSubMessage ex_field_e" "fd_CType ex_field_e = kUpb_CType_Enum"
    "fd_EnumSubDef ex_field_e = Some ex_enum" "ed_FullName ex_enum = ''a.b.E''"
    by (simp_all add: ex_field_e_def ex_enum_def)
  have x: "\<not> fd_IsSubMessage ex_field_x" "fd_CType ex_field_x \<noteq> kUpb_CType_Enum"
    by (simp_all add: ex_field_x_def)
  show ?thesis
    using field_type_name [OF ex_field_y_eval] field_type_name [OF ex_field_e_eval]
      field_type_name [OF ex_field_x_eval] y e x
    by (simp add: ex_field_y_eval ex_field_e_eval ex_field_x_eval)
qed

text \<open>
  C7. In a file the converter returns: the package is set exactly when the source has a
  package name that is not empty; the edition is set exactly when the syntax is the
  edition-based one; the syntax is set, to \<^verbatim>\<open>proto3\<close>, exactly when the file is in proto3
  mode; so a proto2 file has no syntax.
\<close>

theorem file_header:
  assumes "filedef_toproto f a = Inr (p, a')"
  shows "fdsc_package p =
           (case fl_Package f of None \<Rightarrow> None
            | Some pk \<Rightarrow> if pk = [] then None else Some \<lparr>sv_data = pk, sv_storage = ArenaStorage\<rparr>)
       \<and> fdsc_edition p = (if fl_Syntax f = kUpb_Syntax_Editions then Some (fl_Edition f) else None)
       \<and> fdsc_syntax p =
           (if fl_Syntax f = kUpb_Syntax_Proto3 then Some \<lparr>sv_data = ''proto3'', sv_storage = ArenaStorage\<rparr>
            else None)
       \<and> (fl_Syntax f = kUpb_Syntax_Proto2 \<longrightarrow> fdsc_syntax p = None)"
  using assms unfolding filedef_toproto_def
  by (auto simp add: bnd_Inr_iff ret_Inr_iff set_if_Inr_iff dest!: strviewdup_Inr split: option.splits if_splits)

theorem file_header_witness:
  "filedef_toproto ex_file [] = Inr (ex_file_proto, [])
   \<and> fl_Syntax ex_file = kUpb_Syntax_Proto2
   \<and> fdsc_package ex_file_proto = Some \<lparr>sv_data = ''a.b'', sv_storage = ArenaStorage\<rparr>
   \<and> fdsc_edition ex_file_proto = None
   \<and> fdsc_syntax ex_file_proto = None"
proof -
  have f: "fl_Syntax ex_file = kUpb_Syntax_Proto2" "fl_Package ex_file = Some ''a.b''"
    by (simp_all add: ex_file_def)
  show ?thesis
    using file_header [OF ex_file_eval] f by (simp add: ex_file_eval)
qed

text \<open>
  C4. In what the converter returns for a message, an enum, a service or a file, the slot
  array of every repeated child category is as long as the list of the source children,
  and slot \<open>i\<close> holds the conversion of child \<open>i\<close> (\<open>slots_hold\<close>); reserved names and
  the dependency index lists are the source's own, in the source's order.
\<close>

theorem children_in_source_order:
  "(msgdef_toproto m a = Inr (p, a') \<longrightarrow>
      slots_hold fielddef_toproto (msg_Fields m) (dp_field p)
      \<and> slots_hold oneofdef_toproto (msg_Oneofs m) (dp_oneof_decl p)
      \<and> slots_hold msgdef_toproto (msg_NestedMessages m) (dp_nested_type p)
      \<and> slots_hold enumdef_toproto (msg_NestedEnums m) (dp_enum_type p)
      \<and> slots_hold fielddef_toproto (msg_NestedExtensions m) (dp_extension p)
      \<and> slots_hold extrange_toproto (msg_ExtensionRanges m) (dp_extension_range p)
      \<and> slots_hold resrange_toproto (msg_ReservedRanges m) (dp_reserved_range p)
      \<and> dp_reserved_name p = msg_ReservedNames m)
   \<and> (enumdef_toproto e b = Inr (q, b') \<longrightarrow>
      slots_hold enumvaldef_toproto (ed_Values e) (edp_value q)
      \<and> slots_hold enumresrange_toproto (ed_ReservedRanges e) (edp_reserved_range q)
      \<and> edp_reserved_name q = ed_ReservedNames e)
   \<and> (servicedef_toproto s c = Inr (r, c') \<longrightarrow>
      slots_hold methoddef_toproto (sd_Methods s) (sdp_method r))
   \<and> (filedef_toproto f d = Inr (t, d') \<longrightarrow>
      slots_hold (\<lambda>dep. bnd (deref dep) strviewdup) (fl_Dependencies f) (fdsc_dependency t)
      \<and> fdsc_public_dependency t = fl_PublicDependencyIndexes f
      \<and> fdsc_weak_dependency t = fl_WeakDependencyIndexes f
      \<and> slots_hold msgdef_toproto (fl_TopLevelMessages f) (fdsc_message_type t)
      \<and> slots_hold enumdef_toproto (fl_TopLevelEnums f) (fdsc_enum_type t)
      \<and> slots_hold servicedef_toproto (fl_Services f) (fdsc_service t)
      \<and> slots_hold fielddef_toproto (fl_TopLevelExtensions f) (fdsc_extension t))"
  using msgdef_slots [of m a p a'] enumdef_slots [of e b q b'] servicedef_slots [of s c r c']
    filedef_slots [of f d t d']
  by blast

theorem children_in_source_order_witness:
  "msgdef_toproto ex_msg [] = Inr (ex_msg_proto, [])
   \<and> slots_hold fielddef_toproto [ex_field_x, ex_field_y] [ex_field_x_proto, ex_field_y_proto]
   \<and> enumdef_toproto ex_enum [] = Inr (ex_enum_proto, [])
   \<and> slots_hold enumvaldef_toproto (ed_Values ex_enum) (edp_value ex_enum_proto)
   \<and> servicedef_toproto ex_service [] = Inr (ex_service_proto, [])
   \<and> slots_hold methoddef_toproto [ex_method ''Put'', ex_method ''Get'']
        [ex_method_proto ''Put'', ex_method_proto ''Get'']
   \<and> filedef_toproto ex_file [] = Inr (ex_file_proto, [])
   \<and> slots_hold msgdef_toproto [ex_msg, ex_msg_empty] [ex_msg_proto, ex_msg_empty_proto]"
proof -
  have s: "msg_Fields ex_msg = [ex_field_x, ex_field_y]"
    "dp_field ex_msg_proto = [ex_field_x_proto, ex_field_y_proto]"
    "sd_Methods ex_service = [ex_method ''Put'', ex_method ''Get'']"
    "sdp_method ex_service_proto = [ex_method_proto ''Put'', ex_method_proto ''Get'']"
    "fl_TopLevelMessages ex_file = [ex_msg, ex_msg_empty]"
    "fdsc_message_type ex_file_proto = [ex_msg_proto, ex_msg_empty_proto]"
    by (simp_all add: ex_msg_def ex_msg_proto_def ex_service_def ex_service_proto_def ex_file_def
        ex_file_proto_def)
  show ?thesis
    using children_in_source_order [of ex_msg "[]" ex_msg_proto "[]" ex_enum "[]" ex_enum_proto "[]"
        ex_service "[]" ex_service_proto "[]" ex_file "[]" ex_file_proto "[]"] s
    by (simp add: ex_msg_eval ex_enum_eval ex_service_eval ex_file_eval)
qed

text \<open>
  C1 fails on the code. Of the calls that resize a slot array only two are followed by
  \<^verbatim>\<open>CHK_OOM\<close> (the fields of a message, the values of an enum). When the resize of the
  oneof slots fails (the fourth allocator call for a message without fields): with no
  oneof to convert the failure passes unseen and the entry point returns a descriptor;
  with one oneof the converter stores through the null slot array.
\<close>

theorem unchecked_resize_failure:
  "upb_MessageDef_ToProto ex_msg_empty [True, True, True, False] = Inr (Some ex_msg_empty_proto)
   \<and> upb_MessageDef_ToProto ex_msg_oneof [True, True, True, False] = Inl NullStore"
  by (simp add: upb_MessageDef_ToProto_def entry_point_def msgdef_toproto.simps ex_msg_empty_def
      ex_msg_oneof_def ex_oneof_def ex_msg_empty_proto_def oneofdef_toproto_def bnd_def new_node_def
      CHK_OOM_def ret_def throw_def resize_def strviewdup_def strviewdup2_def malloc_True malloc_Nil
      memcpy_def copy_options_def arena_view_def)

text \<open>
  C2 fails on the code. Every other string of the output goes through \<^verbatim>\<open>strviewdup\<close>,
  \<^verbatim>\<open>strviewdup2\<close>, \<^verbatim>\<open>qual_dup\<close>, \<^verbatim>\<open>printf_dup\<close> or \<^verbatim>\<open>default_bytes\<close> and lies in
  the arena, but the reserved names of a message and of an enum are stored as the source's
  own views: they point into the storage of the source definitions.
\<close>

theorem reserved_names_not_copied:
  "upb_MessageDef_ToProto ex_msg [] = Inr (Some ex_msg_proto)
   \<and> dp_reserved_name ex_msg_proto = [\<lparr>sv_data = ''old'', sv_storage = DefStorage\<rparr>]
   \<and> upb_EnumDef_ToProto ex_enum [] = Inr (Some ex_enum_proto)
   \<and> edp_reserved_name ex_enum_proto = [\<lparr>sv_data = ''TWO'', sv_storage = DefStorage\<rparr>]"
  by (simp add: upb_MessageDef_ToProto_def upb_EnumDef_ToProto_def entry_point_def ex_msg_eval
      ex_enum_eval ex_msg_proto_def ex_enum_proto_def source_view_def)

text \<open>
  C10. For every value of each numeric kind, the text that \<^verbatim>\<open>default_string\<close> hands to
  \<^verbatim>\<open>printf_dup\<close> (\<^verbatim>\<open>%d\<close> and \<^verbatim>\<open>%u\<close> at 32 and 64 bits, \<^verbatim>\<open>%.9g\<close> of a float,
  \<^verbatim>\<open>%.17g\<close> of a double) is shorter than 32 characters: it fits the buffer, the
  assertion holds and \<^verbatim>\<open>printf_dup\<close> returns the whole text.
\<close>

theorem numeric_default_text_fits:
  "printed_in_full (fmt_d (sint (i32 :: 32 word)))
   \<and> printed_in_full (fmt_d (sint (i64 :: 64 word)))
   \<and> printed_in_full (fmt_u (unat (u32 :: 32 word)))
   \<and> printed_in_full (fmt_u (unat (u64 :: 64 word)))
   \<and> printed_in_full (fmt_g 9 (decode_float w32))
   \<and> printed_in_full (fmt_g 17 (decode_double w64))"
  using length_fmt_d32 [of i32] length_fmt_d64 [of i64] length_fmt_u32 [of u32]
    length_fmt_u64 [of u64] length_fmt_g_float [of w32] length_fmt_g_double [of w64]
  by (intro conjI printed_in_fullI) simp_all



end
